theory Spec2Isabelle
  imports Complex_Main "HOL-Library.Sublist" "HOL-Library.Multiset"
begin

section \<open>Python values used by the chatbot\<close>

text \<open>
  Exceptions are values. \<open>ExternalError\<close> stands for an exception raised inside an
  external collaborator (the language model pipeline, the graph driver, scikit-learn,
  the CSV reader); the others are the Python built-ins of the same name.
\<close>

datatype error =
  ValueError | ZeroDivisionError | IndexError | KeyError | AttributeError | ExternalError

text \<open>
  Strings are lists of characters. \<open>str.strip()\<close> removes the characters for which
  \<open>str.isspace\<close> holds, at both ends.
\<close>

definition is_space :: "char \<Rightarrow> bool" where
  "is_space c =
     (let n = (of_char c :: nat)
      in (9 \<le> n \<and> n \<le> 13) \<or> (28 \<le> n \<and> n \<le> 32) \<or> n = 133 \<or> n = 160)"

definition py_lstrip :: "string \<Rightarrow> string" where
  "py_lstrip s = dropWhile is_space s"

definition py_rstrip :: "string \<Rightarrow> string" where
  "py_rstrip s = rev (dropWhile is_space (rev s))"

definition py_strip :: "string \<Rightarrow> string" where
  "py_strip s = py_lstrip (py_rstrip s)"

text \<open>
  A character is a code point from 0 to 255 (Latin-1); a string with any other code
  point is outside the type. \<open>str.lower()\<close> on these: the letters A to Z and the
  accented capitals 0xC0 to 0xDE, the multiplication sign 0xD7 apart, move up by 32;
  every other character stays. Two such characters are equal under Python's
  \<open>re.IGNORECASE\<close> exactly when they are equal once lowered.
\<close>

definition lower_char :: "char \<Rightarrow> char" where
  "lower_char c =
     (let n = (of_char c :: nat)
      in if (65 \<le> n \<and> n \<le> 90) \<or> (192 \<le> n \<and> n \<le> 222 \<and> n \<noteq> 215)
         then char_of (n + 32) else c)"

definition py_lower :: "string \<Rightarrow> string" where
  "py_lower s = map lower_char s"

text \<open>\<open>sep.join(parts)\<close>.\<close>

fun py_join :: "string \<Rightarrow> string list \<Rightarrow> string" where
  "py_join sep [] = []"
| "py_join sep [p] = p"
| "py_join sep (p # q # ps) = p @ sep @ py_join sep (q # ps)"

text \<open>\<open>s.split(c)\<close> for a separator of one character: never the empty list.\<close>

fun py_split :: "char \<Rightarrow> string \<Rightarrow> string list" where
  "py_split sep [] = [[]]"
| "py_split sep (c # cs) =
     (if c = sep then [] # py_split sep cs
      else (case py_split sep cs of
              [] \<Rightarrow> [[c]]
            | p # ps \<Rightarrow> (c # p) # ps))"

text \<open>
  \<open>xs[start:]\<close>: a negative start counts from the end, and every start is clamped
  to the list.
\<close>

definition py_slice_from :: "int \<Rightarrow> 'a list \<Rightarrow> 'a list" where
  "py_slice_from start xs =
     (let n = int (length xs);
          s = (if start < 0 then max 0 (n + start) else min n start)
      in drop (nat s) xs)"

text \<open>\<open>xs[:stop]\<close> for a stop that is not negative (the source only uses 3, 200, 500).\<close>

definition py_slice_to :: "nat \<Rightarrow> 'a list \<Rightarrow> 'a list" where
  "py_slice_to stop xs = take stop xs"

section \<open>The retriever (retriever.py)\<close>

text \<open>
  A row of the document table: the columns \<open>text\<close>, \<open>source_url\<close> and \<open>length\<close> of
  the persisted corpus. A data frame is the list of its rows in positional order.
\<close>

record row =
  row_text :: string
  row_source_url :: string
  row_length :: nat

text \<open>The dictionaries \<open>retrieve\<close> and \<open>retrieve_by_keywords\<close> build.\<close>

record retrieval_result =
  res_text :: string
  res_source_url :: string
  similarity :: real
  index :: nat

record keyword_result =
  kw_text :: string
  kw_source_url :: string
  kw_similarity :: real
  keywords_found :: "string list"

text \<open>
  scikit-learn and NumPy are external. \<open>fit_transform\<close> stands for
  \<open>TfidfVectorizer.fit_transform\<close>: it fails or yields the fitted state \<open>'v\<close>
  (vocabulary and document matrix). \<open>query_similarities\<close> stands for
  \<open>cosine_similarity(vectorizer.transform([query]), document_vectors).flatten()\<close>:
  one similarity per fitted document. Floats are modelled as reals.

  \<open>np.argsort\<close> is called with its default kind, which sorts ascending and is not
  stable: NumPy does not say in which order it leaves the indices of equal values.
  \<open>tie_order\<close> stands for that order: for the array being sorted it gives every index
  a rank, and indices of equal value come out by ascending rank. Every rank function is
  allowed, so nothing is assumed about the order of ties.
\<close>

record 'v tfidf =
  fit_transform :: "string list \<Rightarrow> error + 'v"
  query_similarities :: "'v \<Rightarrow> string \<Rightarrow> real list"
  tie_order :: "real list \<Rightarrow> nat \<Rightarrow> nat"

record 'v retriever =
  documents :: "row list option"
  document_vectors :: "'v option"
  is_fitted :: bool

definition fit :: "'v tfidf \<Rightarrow> 'v retriever \<Rightarrow> error + 'v retriever" where
  "fit lib r =
     (case documents r of
        None \<Rightarrow> Inl ValueError
      | Some docs \<Rightarrow>
          (case fit_transform lib (map row_text docs) of
             Inl e \<Rightarrow> Inl e
           | Inr v \<Rightarrow> Inr (r\<lparr>document_vectors := Some v, is_fitted := True\<rparr>)))"

text \<open>
  \<open>np.argsort(similarities)\<close>: a permutation of the indices in ascending order of
  their values. The indices are first put in the order of their ranks and then sorted by
  value with HOL's stable \<open>sort_key\<close>, so that equal values stay in rank order. Every
  ascending permutation of the indices is \<open>argsort ranks xs\<close> for some \<open>ranks\<close>
  (lemma \<open>argsort_complete\<close>).
\<close>

definition argsort :: "(nat \<Rightarrow> nat) \<Rightarrow> real list \<Rightarrow> nat list" where
  "argsort ranks xs = sort_key (\<lambda>i. xs ! i) (sort_key ranks [0..<length xs])"

text \<open>
  The loop over \<open>top_indices\<close>. \<open>similarities[idx]\<close> is always in range (the
  indices come from \<open>argsort similarities\<close>); \<open>self.documents.iloc[idx]\<close> raises
  when the table is shorter than the fitted matrix.
\<close>

fun collect_results ::
  "row list option \<Rightarrow> real list \<Rightarrow> nat list \<Rightarrow> error + retrieval_result list" where
  "collect_results docs similarities [] = Inr []"
| "collect_results docs similarities (idx # rest) =
     (if similarities ! idx > 0 then
        (case docs of
           None \<Rightarrow> Inl AttributeError
         | Some ds \<Rightarrow>
             if idx < length ds then
               (case collect_results docs similarities rest of
                  Inl e \<Rightarrow> Inl e
                | Inr results \<Rightarrow>
                    Inr (\<lparr>res_text = row_text (ds ! idx),
                          res_source_url = row_source_url (ds ! idx),
                          similarity = similarities ! idx,
                          index = idx\<rparr> # results))
             else Inl IndexError)
      else collect_results docs similarities rest)"

definition retrieve ::
  "'v tfidf \<Rightarrow> 'v retriever \<Rightarrow> string \<Rightarrow> int \<Rightarrow> error + ('v retriever \<times> retrieval_result list)" where
  "retrieve lib r query k =
     (case (if is_fitted r then Inr r else fit lib r) of
        Inl e \<Rightarrow> Inl e
      | Inr r1 \<Rightarrow>
          (case document_vectors r1 of
             None \<Rightarrow> Inl ExternalError
           | Some v \<Rightarrow>
               (let similarities = query_similarities lib v query;
                    top_indices =
                      rev (py_slice_from (- k) (argsort (tie_order lib similarities) similarities))
                in case collect_results (documents r1) similarities top_indices of
                     Inl e \<Rightarrow> Inl e
                   | Inr results \<Rightarrow> Inr (r1, results))))"

text \<open>
  \<open>Series.str.contains(pat, case=False, na=False)\<close> searches the regular expression
  \<open>pat\<close> in each text with \<open>re.IGNORECASE\<close>. The fragment of the regular-expression
  syntax that is modelled has the alternation \<open>|\<close>, the dot (any character but the
  newline) and literal characters: \<open>pat\<close> is cut at every \<open>|\<close>, and an alternative is
  found in a text when, at some position, each of its characters meets an equal
  character (case ignored) or is a dot. A pattern with any other metacharacter
  (\<open>regex_unmodelled\<close>) is outside the fragment: the result is \<open>None\<close>, and nothing is
  said about what the code does with it, match or \<open>re.error\<close>.
\<close>

definition regex_unmodelled :: "char \<Rightarrow> bool" where
  "regex_unmodelled c = (c \<in> set (CHR 0x5C # ''^$*+?{}[]()''))"

definition regex_meta :: "char \<Rightarrow> bool" where
  "regex_meta c = (c = CHR ''|'' \<or> c = CHR ''.'' \<or> regex_unmodelled c)"

fun match_here :: "string \<Rightarrow> string \<Rightarrow> bool" where
  "match_here [] s = True"
| "match_here (p # ps) [] = False"
| "match_here (p # ps) (c # cs) =
     ((if p = CHR ''.'' then c \<noteq> CHR 0x0A else lower_char p = lower_char c) \<and>
      match_here ps cs)"

fun search_alt :: "string \<Rightarrow> string \<Rightarrow> bool" where
  "search_alt alt [] = match_here alt []"
| "search_alt alt (c # cs) = (match_here alt (c # cs) \<or> search_alt alt cs)"

definition str_contains_nocase :: "string \<Rightarrow> string \<Rightarrow> bool option" where
  "str_contains_nocase pat s =
     (if list_ex regex_unmodelled pat then None
      else Some (list_ex (\<lambda>alt. search_alt alt s) (py_split CHR ''|'' pat)))"

text \<open>\<open>DataFrame.head(k)\<close>: the first k rows, or all but the last \<open>-k\<close> for a negative k.\<close>

definition df_head :: "int \<Rightarrow> 'a list \<Rightarrow> 'a list" where
  "df_head k xs = (if 0 \<le> k then take (nat k) xs else take (length xs - nat (- k)) xs)"

definition keyword_hit :: "string list \<Rightarrow> row \<Rightarrow> keyword_result" where
  "keyword_hit keywords d =
     \<lparr>kw_text = row_text d, kw_source_url = row_source_url d,
      kw_similarity = 1, keywords_found = keywords\<rparr>"

text \<open>
  \<open>retrieve_by_keywords\<close>. The outer \<open>None\<close> is the one of \<open>str_contains_nocase\<close>: the
  joined pattern is outside the modelled fragment.
\<close>

definition retrieve_by_keywords ::
  "'v retriever \<Rightarrow> string list \<Rightarrow> int \<Rightarrow> (error + keyword_result list) option" where
  "retrieve_by_keywords r keywords k =
     (case documents r of
        None \<Rightarrow> Some (Inl ValueError)
      | Some docs \<Rightarrow>
          (let pat = py_join ''|'' keywords
           in if list_ex regex_unmodelled pat then None
              else
                (let mask = (\<lambda>d. str_contains_nocase pat (row_text d) = Some True);
                     matching_docs = df_head k (filter mask docs)
                 in Some (Inr (map (keyword_hit keywords) matching_docs)))))"

text \<open>
  The behaviour that claim C9 and the docstring of \<open>retrieve_by_keywords\<close> (documents
  containing specific keywords) describe, written from their words: the documents in
  which some keyword occurs as a substring, case ignored, in the order of the table, the
  first k of them, each with similarity 1.
\<close>

definition keyword_or_match :: "row list \<Rightarrow> string list \<Rightarrow> int \<Rightarrow> keyword_result list" where
  "keyword_or_match docs keywords k =
     map (keyword_hit keywords)
       (take (nat k)
          (filter (\<lambda>d. list_ex (\<lambda>kw. sublist (py_lower kw) (py_lower (row_text d))) keywords)
             docs))"

text \<open>The dictionary built for index \<open>idx\<close> in the loop of \<open>retrieve\<close>.\<close>

definition hit :: "row list \<Rightarrow> real list \<Rightarrow> nat \<Rightarrow> retrieval_result" where
  "hit ds sims idx = \<lparr>res_text = row_text (ds ! idx), res_source_url = row_source_url (ds ! idx),
                          similarity = sims ! idx, index = idx\<rparr>"

text \<open>
  The indices of the results of \<open>retrieve\<close>, in the order of the results: the last k
  indices of the ascending sort, reversed, without those of similarity 0 or less.
\<close>

definition ranked :: "'v tfidf \<Rightarrow> real list \<Rightarrow> int \<Rightarrow> nat list" where
  "ranked lib sims k =
     filter (\<lambda>i. sims ! i > 0)
       (rev (py_slice_from (- k) (argsort (tie_order lib sims) sims)))"

text \<open>
  A fitted index over two documents with the same text, whose similarities to the query
  are therefore equal. Its \<open>tie_order\<close> is the one of a stable sort, which is what
  NumPy's default sort does on an array of two elements: \<open>np.argsort([0.5, 0.5])\<close> is
  \<open>[0, 1]\<close>.
\<close>

definition tie_lib :: "unit tfidf" where
  "tie_lib = \<lparr>fit_transform = (\<lambda>texts. Inr ()), query_similarities = (\<lambda>v q. [1/2, 1/2]),
               tie_order = (\<lambda>sims i. i)\<rparr>"

definition tie_docs :: "row list" where
  "tie_docs = [\<lparr>row_text = ''MAT standards'', row_source_url = ''url1'', row_length = 13\<rparr>,
               \<lparr>row_text = ''MAT standards'', row_source_url = ''url2'', row_length = 13\<rparr>]"

definition tie_retriever :: "unit retriever" where
  "tie_retriever = \<lparr>documents = Some tie_docs, document_vectors = Some (), is_fitted = True\<rparr>"

text \<open>
  The four documents of \<open>tests/test_retriever.py\<close>, with a library whose similarities
  for the query \<open>MAT standards\<close> are positive on the first and last document only, and
  zero everywhere for every other query.
\<close>

definition mat_docs :: "row list" where
  "mat_docs =
     [\<lparr>row_text = ''MAT standards are important for treatment'', row_source_url = ''url1'',
       row_length = 41\<rparr>,
      \<lparr>row_text = ''Medication assisted treatment helps patients'', row_source_url = ''url2'',
       row_length = 44\<rparr>,
      \<lparr>row_text = ''Public health scotland provides guidance'', row_source_url = ''url3'',
       row_length = 40\<rparr>,
      \<lparr>row_text = ''Recovery is the main goal of MAT'', row_source_url = ''url4'',
       row_length = 32\<rparr>]"

definition mat_lib :: "unit tfidf" where
  "mat_lib =
     \<lparr>fit_transform = (\<lambda>texts. Inr ()),
      query_similarities =
        (\<lambda>v q. if q = ''MAT standards'' then [3/4, 0, 0, 1/4] else [0, 0, 0, 0]),
      tie_order = (\<lambda>sims i. i)\<rparr>"

definition mat_retriever :: "unit retriever" where
  "mat_retriever = \<lparr>documents = Some mat_docs, document_vectors = Some (), is_fitted = True\<rparr>"

subsection \<open>Properties of the ranking\<close>

lemma argsort_sorted: "sorted (map (\<lambda>i. xs ! i) (argsort ranks xs))"
  unfolding argsort_def by (rule sorted_sort_key)

lemma set_argsort: "set (argsort ranks xs) = {0..<length xs}"
  by (simp add: argsort_def)

lemma length_argsort: "length (argsort ranks xs) = length xs"
  by (simp add: argsort_def)

lemma distinct_argsort: "distinct (argsort ranks xs)"
  by (simp add: argsort_def)

text \<open>
  The model leaves \<open>np.argsort\<close> free: every list that holds each index once, in
  ascending order of the values, is the result for the rank function that gives each
  index its position in that list.
\<close>

lemma position_map:
  "distinct ys \<Longrightarrow> map (\<lambda>i. length (takeWhile (\<lambda>j. j \<noteq> i) (ys :: nat list))) ys = [0..<length ys]"
proof (induction ys)
  case Nil
  then show ?case by simp
next
  case (Cons y ys)
  have "map (\<lambda>i. length (takeWhile (\<lambda>j. j \<noteq> i) (y # ys))) ys =
        map Suc (map (\<lambda>i. length (takeWhile (\<lambda>j. j \<noteq> i) ys)) ys)"
    using Cons.prems by auto
  also have "\<dots> = map Suc [0..<length ys]" using Cons by simp
  finally show ?case by (simp add: map_Suc_upt upt_conv_Cons del: upt_Suc)
qed

lemma filter_eq_singleton:
  "distinct zs \<Longrightarrow> inj_on f (set zs) \<Longrightarrow> k \<in> set zs \<Longrightarrow> filter (\<lambda>x. f k = f x) zs = [k]"
proof (induction zs)
  case Nil
  then show ?case by simp
next
  case (Cons z zs)
  show ?case
  proof (cases "k = z")
    case True
    have "filter (\<lambda>x. f z = f x) zs = []"
      unfolding filter_empty_conv using Cons.prems(1,2) by (auto simp: inj_on_def)
    with True show ?thesis by simp
  next
    case False
    then have "f k \<noteq> f z" using Cons.prems by (auto simp: inj_on_def)
    with False Cons show ?thesis by auto
  qed
qed

lemma argsort_complete:
  assumes "distinct ys" and "set ys = {0..<length xs}" and "sorted (map (\<lambda>i. xs ! i) ys)"
  shows "\<exists>ranks. argsort ranks xs = ys"
proof -
  let ?ranks = "\<lambda>i. length (takeWhile (\<lambda>j. j \<noteq> i) ys)"
  have pos: "map ?ranks ys = [0..<length ys]" using assms(1) by (rule position_map)
  have "distinct (map ?ranks ys)" unfolding pos by simp
  then have inj: "inj_on ?ranks (set ys)" by (simp add: distinct_map)
  have ms: "mset ys = mset [0..<length xs]"
    using assms(1,2) set_eq_iff_mset_eq_distinct [of ys "[0..<length xs]"] by simp
  have "sort_key ?ranks [0..<length xs] = ys"
  proof (rule properties_for_sort_key)
    show "mset ys = mset [0..<length xs]" by (rule ms)
    show "sorted (map ?ranks ys)" unfolding pos by simp
    fix k assume k: "k \<in> set ys"
    have "filter (\<lambda>x. ?ranks k = ?ranks x) ys = [k]"
      using assms(1) inj k by (rule filter_eq_singleton)
    moreover have "filter (\<lambda>x. ?ranks k = ?ranks x) [0..<length xs] = [k]"
      using inj k assms(2) by (intro filter_eq_singleton) simp_all
    ultimately show "filter (\<lambda>x. ?ranks k = ?ranks x) ys =
        filter (\<lambda>x. ?ranks k = ?ranks x) [0..<length xs]" by simp
  qed
  then have "argsort ?ranks xs = ys"
    using assms(3) by (simp add: argsort_def sort_key_id_if_sorted)
  then show ?thesis by blast
qed

lemma length_py_slice_from_neg:
  "0 < k \<Longrightarrow> length (py_slice_from (- k) xs) \<le> nat k"
  by (auto simp: py_slice_from_def Let_def)

lemma py_slice_from_drop: "\<exists>m. py_slice_from s xs = drop m xs"
  by (auto simp: py_slice_from_def Let_def)


lemma collect_results_in_range:
  "\<forall>i\<in>set idxs. i < length ds \<Longrightarrow>
   collect_results (Some ds) sims idxs = Inr (map (hit ds sims) (filter (\<lambda>i. sims ! i > 0) idxs))"
  by (induction idxs) (auto simp: hit_def)

lemma retrieve_fitted:
  assumes "is_fitted r" "documents r = Some docs" "document_vectors r = Some v"
    and "length (query_similarities lib v q) = length docs"
  shows "retrieve lib r q k =
     Inr (r, map (hit docs (query_similarities lib v q))
               (ranked lib (query_similarities lib v q) k))"
proof -
  let ?sims = "query_similarities lib v q"
  let ?sorted = "argsort (tie_order lib ?sims) ?sims"
  let ?top = "rev (py_slice_from (- k) ?sorted)"
  obtain m where m: "py_slice_from (- k) ?sorted = drop m ?sorted"
    using py_slice_from_drop by blast
  have "set ?top \<subseteq> set ?sorted"
    unfolding m by (simp add: set_drop_subset)
  then have "\<forall>i\<in>set ?top. i < length docs"
    using assms(4) by (auto simp: set_argsort)
  then have "collect_results (Some docs) ?sims ?top =
      Inr (map (hit docs ?sims) (filter (\<lambda>i. ?sims ! i > 0) ?top))"
    by (rule collect_results_in_range)
  then show ?thesis
    using assms(1-3) by (simp add: retrieve_def Let_def ranked_def)
qed

lemma top_indices_sorted:
  "sorted_wrt (\<lambda>i j. xs ! i \<ge> xs ! j) (rev (py_slice_from s (argsort ranks xs)))"
proof -
  obtain m where m: "py_slice_from s (argsort ranks xs) = drop m (argsort ranks xs)"
    using py_slice_from_drop by blast
  have "sorted_wrt (\<lambda>i j. xs ! i \<le> xs ! j) (argsort ranks xs)"
    using argsort_sorted [of xs ranks] by (simp add: sorted_wrt_map)
  then have "sorted_wrt (\<lambda>i j. xs ! i \<le> xs ! j) (drop m (argsort ranks xs))"
    by (rule sorted_wrt_drop)
  then show ?thesis
    unfolding m by (simp add: sorted_wrt_rev)
qed

lemma ranked_sorted: "sorted_wrt (\<lambda>i j. sims ! i \<ge> sims ! j) (ranked lib sims k)"
  unfolding ranked_def by (rule sorted_wrt_filter) (rule top_indices_sorted)

lemma ranked_distinct: "distinct (ranked lib sims k)"
proof -
  obtain m where m: "py_slice_from (- k) (argsort (tie_order lib sims) sims) =
      drop m (argsort (tie_order lib sims) sims)"
    using py_slice_from_drop by blast
  show ?thesis
    unfolding ranked_def m by (simp add: distinct_argsort)
qed

lemma ranked_in_range: "i \<in> set (ranked lib sims k) \<Longrightarrow> i < length sims \<and> sims ! i > 0"
proof -
  obtain m where m: "py_slice_from (- k) (argsort (tie_order lib sims) sims) =
      drop m (argsort (tie_order lib sims) sims)"
    using py_slice_from_drop by blast
  assume "i \<in> set (ranked lib sims k)"
  then show ?thesis
    unfolding ranked_def m
    using set_drop_subset [of m "argsort (tie_order lib sims) sims"]
    by (auto simp: set_argsort)
qed

lemma length_ranked: "0 < k \<Longrightarrow> length (ranked lib sims k) \<le> nat k"
proof -
  assume k: "0 < k"
  have "length (ranked lib sims k) \<le>
      length (rev (py_slice_from (- k) (argsort (tie_order lib sims) sims)))"
    unfolding ranked_def by (rule length_filter_le)
  also have "\<dots> \<le> nat k" using k by (simp add: length_py_slice_from_neg)
  finally show ?thesis .
qed

text \<open>
  Claim C4. On a fitted index whose matrix has one row per document, \<open>retrieve q k\<close>
  with a positive k returns normally, with at most k results, none of similarity 0; and
  when every similarity is 0 (a query that shares no vocabulary with the corpus) the
  result is the empty list.
\<close>

theorem retrieve_top_k_bound:
  assumes "is_fitted r" "documents r = Some docs" "document_vectors r = Some v"
    and "length (query_similarities lib v q) = length docs" and "0 < k"
  shows "\<exists>results. retrieve lib r q k = Inr (r, results) \<and> length results \<le> nat k \<and>
          (\<forall>x\<in>set results. similarity x \<noteq> 0) \<and>
          ((\<forall>s\<in>set (query_similarities lib v q). s = 0) \<longrightarrow> results = [])"
proof -
  let ?sims = "query_similarities lib v q"
  let ?results = "map (hit docs ?sims) (ranked lib ?sims k)"
  have eq: "retrieve lib r q k = Inr (r, ?results)"
    using assms(1-4) by (rule retrieve_fitted)
  have len: "length ?results \<le> nat k"
    using assms(5) by (simp add: length_ranked)
  have pos: "\<forall>x\<in>set ?results. similarity x \<noteq> 0"
    using ranked_in_range [of _ lib ?sims k] by (fastforce simp: hit_def)
  have zero: "(\<forall>s\<in>set ?sims. s = 0) \<longrightarrow> ?results = []"
  proof
    assume z: "\<forall>s\<in>set ?sims. s = 0"
    have "ranked lib ?sims k = []"
    proof (rule ccontr)
      assume "ranked lib ?sims k \<noteq> []"
      then obtain i where "i \<in> set (ranked lib ?sims k)"
        by (cases "ranked lib ?sims k") auto
      then have "i < length ?sims" "?sims ! i > 0"
        using ranked_in_range by blast+
      with z show False by (metis less_irrefl nth_mem)
    qed
    then show "?results = []" by simp
  qed
  from eq len pos zero show ?thesis by blast
qed

theorem retrieve_top_k_bound_witness:
  "retrieve mat_lib mat_retriever ''MAT standards'' 1 =
     Inr (mat_retriever,
          [\<lparr>res_text = ''MAT standards are important for treatment'', res_source_url = ''url1'',
            similarity = 3/4, index = 0\<rparr>]) \<and>
   retrieve mat_lib mat_retriever ''zebra'' 2 = Inr (mat_retriever, [])"
proof -
  have a: "retrieve mat_lib mat_retriever ''MAT standards'' 1 =
     Inr (mat_retriever,
          [\<lparr>res_text = ''MAT standards are important for treatment'', res_source_url = ''url1'',
            similarity = 3/4, index = 0\<rparr>])"
    by (simp add: retrieve_def mat_lib_def mat_retriever_def mat_docs_def argsort_def
        py_slice_from_def upt_conv_Cons)
  have "\<exists>results. retrieve mat_lib mat_retriever ''zebra'' 2 = Inr (mat_retriever, results) \<and>
          length results \<le> nat 2 \<and> (\<forall>x\<in>set results. similarity x \<noteq> 0) \<and>
          ((\<forall>s\<in>set (query_similarities mat_lib () ''zebra''). s = 0) \<longrightarrow> results = [])"
    by (rule retrieve_top_k_bound [of mat_retriever mat_docs "()" mat_lib "''zebra''" 2])
      (simp_all add: mat_lib_def mat_retriever_def mat_docs_def)
  then have b: "retrieve mat_lib mat_retriever ''zebra'' 2 = Inr (mat_retriever, [])"
    by (auto simp: mat_lib_def)
  from a b show ?thesis by simp
qed

text \<open>
  Claim C3, as amended. On a fitted index the results are in descending order of
  similarity and no document is returned twice. Nothing more is fixed for two documents
  of exactly equal similarity: \<open>retrieve\<close> applies no tie-break of its own, and returns
  them in the reverse of the order in which \<open>np.argsort\<close> leaves them, whatever that
  order is.
\<close>

theorem retrieve_descending_order:
  assumes "is_fitted r" "documents r = Some docs" "document_vectors r = Some v"
    and "length (query_similarities lib v q) = length docs"
  shows "\<exists>results. retrieve lib r q k = Inr (r, results) \<and>
          sorted_wrt (\<lambda>a b. similarity a \<ge> similarity b) results \<and>
          distinct (map index results) \<and>
          map index results =
            filter (\<lambda>i. query_similarities lib v q ! i > 0)
              (rev (py_slice_from (- k)
                 (argsort (tie_order lib (query_similarities lib v q))
                    (query_similarities lib v q))))"
proof -
  let ?sims = "query_similarities lib v q"
  let ?results = "map (hit docs ?sims) (ranked lib ?sims k)"
  have eq: "retrieve lib r q k = Inr (r, ?results)"
    using assms(1-4) by (rule retrieve_fitted)
  have idx: "map index ?results = ranked lib ?sims k"
    by (simp add: hit_def comp_def)
  have "sorted_wrt (\<lambda>a b. similarity a \<ge> similarity b) ?results"
    using ranked_sorted [of ?sims lib k] by (simp add: sorted_wrt_map hit_def)
  moreover have "distinct (map index ?results)"
    unfolding idx by (rule ranked_distinct)
  moreover have "map index ?results =
      filter (\<lambda>i. ?sims ! i > 0)
        (rev (py_slice_from (- k) (argsort (tie_order lib ?sims) ?sims)))"
    unfolding idx by (simp add: ranked_def)
  ultimately show ?thesis using eq by blast
qed

text \<open>
  Claim C3 as stated fails: of two documents with identical text and equal similarity,
  the one with the larger index is ranked first when \<open>np.argsort\<close> leaves the two
  indices in ascending order, as it does on an array of two elements.
\<close>

theorem retrieve_tie_break_counterexample:
  "retrieve tie_lib tie_retriever ''MAT standards'' 2 =
     Inr (tie_retriever,
          [\<lparr>res_text = ''MAT standards'', res_source_url = ''url2'', similarity = 1/2, index = 1\<rparr>,
           \<lparr>res_text = ''MAT standards'', res_source_url = ''url1'', similarity = 1/2, index = 0\<rparr>])"
  by (simp add: retrieve_def tie_lib_def tie_retriever_def tie_docs_def argsort_def
      py_slice_from_def upt_conv_Cons)

theorem retrieve_descending_order_witness:
  "\<exists>results. retrieve tie_lib tie_retriever ''MAT standards'' 2 = Inr (tie_retriever, results) \<and>
          sorted_wrt (\<lambda>a b. similarity a \<ge> similarity b) results \<and>
          distinct (map index results) \<and>
          map index results = [1, 0]"
  using retrieve_descending_order [of tie_retriever tie_docs "()" tie_lib "''MAT standards''" 2]
  by (simp add: tie_lib_def tie_retriever_def tie_docs_def argsort_def py_slice_from_def
      upt_conv_Cons)

subsection \<open>Keyword retrieval\<close>

lemma py_split_not_Nil: "py_split sep s \<noteq> []"
  by (induction s) (auto split: list.splits)

lemma py_split_no_sep: "sep \<notin> set p \<Longrightarrow> py_split sep p = [p]"
  by (induction p) auto

lemma py_split_append_sep:
  "sep \<notin> set p \<Longrightarrow> py_split sep (p @ sep # s) = p # py_split sep s"
  by (induction p) auto

lemma py_split_join:
  "ps \<noteq> [] \<Longrightarrow> \<forall>p\<in>set ps. sep \<notin> set p \<Longrightarrow> py_split sep (py_join [sep] ps) = ps"
proof (induction "[sep]" ps rule: py_join.induct)
  case 1
  then show ?case by simp
next
  case (2 p)
  then show ?case by (simp add: py_split_no_sep)
next
  case (3 p q ps)
  then show ?case by (simp add: py_split_append_sep)
qed


lemma match_here_literal:
  "CHR ''.'' \<notin> set p \<Longrightarrow> match_here p s = prefix (py_lower p) (py_lower s)"
  by (induction p s rule: match_here.induct) (auto simp: py_lower_def)

lemma search_alt_literal:
  "CHR ''.'' \<notin> set p \<Longrightarrow> search_alt p s = sublist (py_lower p) (py_lower s)"
proof (induction s)
  case Nil
  then show ?case by (cases p) (simp_all add: py_lower_def)
next
  case (Cons c cs)
  then show ?case
    using match_here_literal [of p "c # cs"]
    by (simp add: py_lower_def sublist_Cons_right)
qed

lemma set_py_join: "set (py_join sep ps) \<subseteq> set sep \<union> \<Union> (set ` set ps)"
  by (induction sep ps rule: py_join.induct) auto

lemma py_join_modelled:
  assumes "\<forall>kw\<in>set keywords. \<forall>c\<in>set kw. \<not> regex_unmodelled c"
  shows "\<not> list_ex regex_unmodelled (py_join ''|'' keywords)"
proof -
  have "\<not> regex_unmodelled CHR ''|''" by (simp add: regex_unmodelled_def)
  with assms show ?thesis
    using set_py_join [where sep = "''|''" and ps = "keywords"] by (auto simp: list_ex_iff)
qed

lemma str_contains_nocase_literals:
  assumes "keywords \<noteq> []" and "\<forall>kw\<in>set keywords. \<forall>c\<in>set kw. \<not> regex_meta c"
  shows "str_contains_nocase (py_join ''|'' keywords) s =
           Some (\<exists>kw\<in>set keywords. sublist (py_lower kw) (py_lower s))"
proof -
  have bar: "\<forall>kw\<in>set keywords. CHR ''|'' \<notin> set kw"
    and dot: "\<forall>kw\<in>set keywords. CHR ''.'' \<notin> set kw"
    and un: "\<forall>kw\<in>set keywords. \<forall>c\<in>set kw. \<not> regex_unmodelled c"
    using assms(2) by (auto simp: regex_meta_def)
  from assms(1) bar have "py_split CHR ''|'' (py_join ''|'' keywords) = keywords"
    by (rule py_split_join)
  moreover have "\<not> list_ex regex_unmodelled (py_join ''|'' keywords)"
    using un by (rule py_join_modelled)
  ultimately show ?thesis
    using dot by (simp add: str_contains_nocase_def list_ex_iff search_alt_literal)
qed

text \<open>
  Where the code and the described behaviour agree: a non-empty list of keywords without
  any regular-expression metacharacter.
\<close>

lemma retrieve_by_keywords_literal:
  assumes "documents r = Some docs" and "keywords \<noteq> []"
    and "\<forall>kw\<in>set keywords. \<forall>c\<in>set kw. \<not> regex_meta c" and "0 < k"
  shows "retrieve_by_keywords r keywords k = Some (Inr (keyword_or_match docs keywords k))"
proof -
  have un: "\<forall>kw\<in>set keywords. \<forall>c\<in>set kw. \<not> regex_unmodelled c"
    using assms(3) by (auto simp: regex_meta_def)
  have mask: "(\<lambda>d. str_contains_nocase (py_join ''|'' keywords) (row_text d) = Some True) =
              (\<lambda>d. list_ex (\<lambda>kw. sublist (py_lower kw) (py_lower (row_text d))) keywords)"
    using assms(2,3) by (simp add: str_contains_nocase_literals list_ex_iff)
  show ?thesis
    using assms(1,4) py_join_modelled [OF un]
    by (simp add: retrieve_by_keywords_def keyword_or_match_def df_head_def mask)
qed

lemma retrieve_by_keywords_example:
  "retrieve_by_keywords mat_retriever [''MAT'', ''treatment''] 5 =
     Some (Inr (map (keyword_hit [''MAT'', ''treatment''])
                  [mat_docs ! 0, mat_docs ! 1, mat_docs ! 3]))"
proof -
  have ev: "filter (\<lambda>d. list_ex (\<lambda>kw. sublist (py_lower kw) (py_lower (row_text d)))
                      [''MAT'', ''treatment'']) mat_docs =
            [mat_docs ! 0, mat_docs ! 1, mat_docs ! 3]"
    by code_simp
  have "retrieve_by_keywords mat_retriever [''MAT'', ''treatment''] 5 =
      Some (Inr (keyword_or_match mat_docs [''MAT'', ''treatment''] 5))"
    by (rule retrieve_by_keywords_literal) (simp_all add: mat_retriever_def regex_meta_def
        regex_unmodelled_def)
  then show ?thesis
    unfolding keyword_or_match_def ev by simp
qed

text \<open>
  Claim C9: the code does not do what the claim and its own docstring say. The keywords
  are joined with \<open>|\<close> and searched as one regular expression, none of them escaped. On
  the four documents of the tests, the keyword \<open>M.T\<close> returns the first and the last
  document, where the dot meets the A of MAT, although no document contains the text
  \<open>M.T\<close>; and the empty keyword list, whose pattern is empty, returns all four
  documents although there is no keyword for them to contain. The behaviour the claim
  states, \<open>keyword_or_match\<close>, returns no document in both cases.
\<close>

theorem retrieve_by_keywords_unescaped:
  "retrieve_by_keywords mat_retriever [''M.T''] 5 =
     Some (Inr (map (keyword_hit [''M.T'']) [mat_docs ! 0, mat_docs ! 3])) \<and>
   keyword_or_match mat_docs [''M.T''] 5 = [] \<and>
   retrieve_by_keywords mat_retriever [] 5 = Some (Inr (map (keyword_hit []) mat_docs)) \<and>
   keyword_or_match mat_docs [] 5 = []"
proof -
  have code: "retrieve_by_keywords mat_retriever kws 5 =
      (if list_ex regex_unmodelled (py_join ''|'' kws) then None
       else Some (Inr (map (keyword_hit kws)
                    (take 5 (filter (\<lambda>d. str_contains_nocase (py_join ''|'' kws) (row_text d) =
                                          Some True) mat_docs)))))" for kws
    by (simp add: retrieve_by_keywords_def mat_retriever_def df_head_def Let_def)
  have a: "filter (\<lambda>d. str_contains_nocase (py_join ''|'' [''M.T'']) (row_text d) = Some True)
             mat_docs = [mat_docs ! 0, mat_docs ! 3]"
    by code_simp
  have b: "filter (\<lambda>d. list_ex (\<lambda>kw. sublist (py_lower kw) (py_lower (row_text d))) [''M.T''])
             mat_docs = []"
    by code_simp
  have c: "filter (\<lambda>d. str_contains_nocase (py_join ''|'' []) (row_text d) = Some True)
             mat_docs = mat_docs"
    by code_simp
  have d: "filter (\<lambda>d. list_ex (\<lambda>kw. sublist (py_lower kw) (py_lower (row_text d))) [])
             mat_docs = []"
    by simp
  have u: "\<not> list_ex regex_unmodelled (py_join ''|'' [''M.T''])"
    "\<not> list_ex regex_unmodelled (py_join ''|'' [])"
    by (simp_all add: regex_unmodelled_def)
  have "retrieve_by_keywords mat_retriever [''M.T''] 5 =
      Some (Inr (map (keyword_hit [''M.T'']) [mat_docs ! 0, mat_docs ! 3]))"
    unfolding code a using u(1) by simp
  moreover have "keyword_or_match mat_docs [''M.T''] 5 = []"
    unfolding keyword_or_match_def b by simp
  moreover have "retrieve_by_keywords mat_retriever [] 5 =
      Some (Inr (map (keyword_hit []) mat_docs))"
    unfolding code c using u(2) by (simp add: mat_docs_def)
  moreover have "keyword_or_match mat_docs [] 5 = []"
    unfolding keyword_or_match_def d by simp
  ultimately show ?thesis by simp
qed

section \<open>The normalizer (data_scrapper.py)\<close>

text \<open>
  \<open>re.sub(r'\\s+', ' ', text)\<close>, as the source writes the pattern: a backslash followed
  by one or more letters s (the longest run), each match replaced by one space, scanning
  from the left.
\<close>

function sub_backslash_s :: "string \<Rightarrow> string" where
  "sub_backslash_s [] = []"
| "sub_backslash_s [c] = [c]"
| "sub_backslash_s (c # d # cs) =
     (if c = CHR 0x5C \<and> d = CHR ''s''
      then CHR '' '' # sub_backslash_s (dropWhile (\<lambda>x. x = CHR ''s'') cs)
      else c # sub_backslash_s (d # cs))"
  by pat_completeness auto
termination
  by (relation "measure length") (auto simp: less_Suc_eq_le intro: le_trans[OF length_dropWhile_le])

text \<open>
  \<open>re.sub(r'[^\\w\\s.,;:!?()-]', '', text)\<close>, as the source writes the class: every
  character is removed but the backslash, the letters w and s, and the listed punctuation.
\<close>

definition keep_char :: "char \<Rightarrow> bool" where
  "keep_char c = (c \<in> set (CHR 0x5C # ''ws.,;:!?()-''))"

definition clean_text :: "string \<Rightarrow> string" where
  "clean_text t = py_strip (filter keep_char (sub_backslash_s t))"

text \<open>
  A data frame with its index: the list of (label, row) pairs in positional order.
  \<open>drop_duplicates(subset=['text'])\<close> keeps the first row of every text; \<open>seen\<close> holds
  the texts already met. \<open>reset_index(drop=True)\<close> relabels the rows from 0.
\<close>

type_synonym dataframe = "(nat \<times> row) list"

fun drop_duplicates :: "string list \<Rightarrow> dataframe \<Rightarrow> dataframe" where
  "drop_duplicates seen [] = []"
| "drop_duplicates seen ((i, r) # rest) =
     (if row_text r \<in> set seen then drop_duplicates seen rest
      else (i, r) # drop_duplicates (row_text r # seen) rest)"

definition reset_index :: "dataframe \<Rightarrow> dataframe" where
  "reset_index df = zip [0..<length df] (map snd df)"

definition clean_data :: "dataframe \<Rightarrow> dataframe" where
  "clean_data df =
     (let df1 = filter (\<lambda>(i, r). length (row_text r) > 0) df;
          df2 = drop_duplicates [] df1;
          df3 = map (\<lambda>(i, r). (i, r\<lparr>row_text := clean_text (row_text r)\<rparr>)) df2;
          df4 = filter (\<lambda>(i, r). length (row_text r) \<ge> 20) df3
      in reset_index df4)"

text \<open>The \<open>text\<close> column of a data frame.\<close>

definition texts :: "dataframe \<Rightarrow> string list" where
  "texts df = map (\<lambda>p. row_text (snd p)) df"

text \<open>
  The example table of the specification: an empty text, the text \<open>Valid text\<close> twice,
  and the text \<open>short\<close>, as \<open>scrape_all_urls\<close> would build the rows.
\<close>

definition raw_row :: "string \<Rightarrow> string \<Rightarrow> row" where
  "raw_row url t = \<lparr>row_text = t, row_source_url = url, row_length = length t\<rparr>"

definition example_df :: dataframe where
  "example_df =
     [(0, raw_row ''url1'' ''''), (1, raw_row ''url2'' ''Valid text''),
      (2, raw_row ''url3'' ''Valid text''), (3, raw_row ''url4'' ''short'')]"

subsection \<open>Properties of the normalizer\<close>

lemma clean_data_example: "clean_data example_df = []"
  by (simp add: clean_data_def example_df_def raw_row_def clean_text_def keep_char_def
      py_strip_def py_lstrip_def py_rstrip_def reset_index_def)

lemma remdups_snoc: "remdups (xs @ [t]) = filter (\<lambda>x. x \<noteq> t) (remdups xs) @ [t]"
  by (induction xs) auto

lemma texts_simps:
  "texts [] = []" "texts ((i, r) # df) = row_text r # texts df"
  by (simp_all add: texts_def)

lemma texts_nonempty_filter:
  "texts (filter (\<lambda>(i, r). row_text r \<noteq> []) df) = filter (\<lambda>t. t \<noteq> []) (texts df)"
  by (induction df) (auto simp: texts_simps)

lemma texts_cleaned:
  "texts (map (\<lambda>(i, r). (i, r\<lparr>row_text := clean_text (row_text r)\<rparr>)) df) =
     map clean_text (texts df)"
  by (induction df) (auto simp: texts_simps)

lemma texts_long_filter:
  "texts (filter (\<lambda>(i, r). length (row_text r) \<ge> 20) df) =
     filter (\<lambda>t. 20 \<le> length t) (texts df)"
  by (induction df) (auto simp: texts_simps)

lemma drop_duplicates_texts:
  "texts (drop_duplicates seen df) =
     filter (\<lambda>t. t \<notin> set seen) (rev (remdups (rev (texts df))))"
proof (induction seen df rule: drop_duplicates.induct)
  case (1 seen)
  then show ?case by (simp add: texts_simps)
next
  case (2 seen i r rest)
  let ?K = "rev (remdups (rev (texts rest)))"
  have K: "rev (remdups (rev (texts ((i, r) # rest)))) =
           row_text r # filter (\<lambda>t. t \<noteq> row_text r) ?K"
    by (simp add: texts_simps remdups_snoc rev_filter)
  show ?case
  proof (cases "row_text r \<in> set seen")
    case True
    have "filter (\<lambda>t. t \<notin> set seen) (filter (\<lambda>t. t \<noteq> row_text r) ?K) =
          filter (\<lambda>t. t \<notin> set seen) ?K"
      unfolding filter_filter using True by (intro filter_cong) auto
    then have "filter (\<lambda>t. t \<notin> set seen) (rev (remdups (rev (texts ((i, r) # rest))))) =
          filter (\<lambda>t. t \<notin> set seen) ?K"
      unfolding K using True by simp
    moreover have "texts (drop_duplicates seen ((i, r) # rest)) = texts (drop_duplicates seen rest)"
      using True by simp
    ultimately show ?thesis using 2(1)[OF True] by simp
  next
    case False
    have "filter (\<lambda>t. t \<notin> set seen) (filter (\<lambda>t. t \<noteq> row_text r) ?K) =
          filter (\<lambda>t. t \<notin> set (row_text r # seen)) ?K"
      unfolding filter_filter by (intro filter_cong) auto
    then have "filter (\<lambda>t. t \<notin> set seen) (rev (remdups (rev (texts ((i, r) # rest))))) =
          row_text r # filter (\<lambda>t. t \<notin> set (row_text r # seen)) ?K"
      unfolding K using False by simp
    moreover have "texts (drop_duplicates seen ((i, r) # rest)) =
         row_text r # texts (drop_duplicates (row_text r # seen) rest)"
      using False by (simp add: texts_simps)
    ultimately show ?thesis using 2(2)[OF False] by simp
  qed
qed

lemma reset_index_fst: "map fst (reset_index df) = [0..<length df]"
  by (simp add: reset_index_def)

lemma texts_map_snd: "texts df = map row_text (map snd df)"
  by (simp add: texts_def)

lemma texts_reset_index: "texts (reset_index df) = texts df"
proof -
  have "map snd (reset_index df) = map snd df"
    by (simp add: reset_index_def)
  then show ?thesis by (simp only: texts_map_snd)
qed

lemma length_reset_index: "length (reset_index df) = length df"
  by (simp add: reset_index_def)

lemma clean_data_texts:
  "texts (clean_data df) =
     filter (\<lambda>t. 20 \<le> length t)
       (map clean_text (rev (remdups (rev (filter (\<lambda>t. t \<noteq> []) (texts df))))))"
  by (simp add: clean_data_def Let_def texts_reset_index texts_long_filter texts_cleaned
      drop_duplicates_texts texts_nonempty_filter)

lemma clean_data_index: "map fst (clean_data df) = [0..<length (clean_data df)]"
  by (simp add: clean_data_def Let_def reset_index_fst length_reset_index)

text \<open>
  Claim C8, as amended. \<open>clean_data\<close> discards the rows whose raw text is empty, then
  the rows whose raw text repeats an earlier row's (the first occurrence stays), then
  cleans every text, then discards the rows whose cleaned text has fewer than 20
  characters, and labels the survivors 0, 1, 2, ... in order. Given the four texts
  \<open>""\<close>, \<open>"Valid text"\<close>, \<open>"Valid text"\<close>, \<open>"short"\<close> it returns no row at all:
  the text \<open>Valid text\<close> has 10 characters.
\<close>

theorem clean_data_pipeline:
  "texts (clean_data df) =
     filter (\<lambda>t. 20 \<le> length t)
       (map clean_text (rev (remdups (rev (filter (\<lambda>t. t \<noteq> []) (texts df)))))) \<and>
   map fst (clean_data df) = [0..<length (clean_data df)] \<and>
   clean_data example_df = []"
  using clean_data_texts [of df] clean_data_index [of df] clean_data_example by simp

text \<open>
  Claim C8 as stated fails on its own example: the result is not the single document
  \<open>Valid text\<close>.
\<close>

theorem clean_data_example_counterexample:
  "texts (clean_data example_df) \<noteq> [''Valid text'']"
  by (simp add: clean_data_example texts_def)

section \<open>The RAG system (rag_system.py)\<close>

text \<open>
  \<open>_clean_response\<close>, one definition for each of its three statements. First the
  text is cut at every full stop; when there is more than one piece and the last piece,
  stripped, has fewer than 10 characters, that piece is dropped and the others are
  joined again, a full stop closing them. Then a text of more than 500 characters is cut
  to 500 and three dots are appended. The result is stripped.
\<close>

definition remove_trailing_incomplete :: "string \<Rightarrow> string" where
  "remove_trailing_incomplete response =
     (let sentences = py_split CHR ''.'' response
      in if length sentences > 1 \<and> length (py_strip (last sentences)) < 10
         then py_join ''.'' (butlast sentences) @ ''.''
         else response)"

definition limit_length :: "string \<Rightarrow> string" where
  "limit_length response =
     (if length response > 500 then py_slice_to 500 response @ ''...'' else response)"

definition clean_response :: "string \<Rightarrow> string" where
  "clean_response response = py_strip (limit_length (remove_trailing_incomplete response))"

text \<open>\<open>s.split(sep)\<close> for a separator string.\<close>

function py_split_str :: "string \<Rightarrow> string \<Rightarrow> string list" where
  "py_split_str sep [] = [[]]"
| "py_split_str sep (c # cs) =
     (if sep \<noteq> [] \<and> prefix sep (c # cs)
      then [] # py_split_str sep (drop (length sep) (c # cs))
      else (case py_split_str sep cs of
              [] \<Rightarrow> [[c]]
            | p # ps \<Rightarrow> (c # p) # ps))"
  by pat_completeness auto
termination
  by (relation "measure (\<lambda>(sep, s). length s)") (auto simp: neq_Nil_conv)

text \<open>
  The text-generation pipeline is external. A call either raises or returns a list of
  outputs; an output either has the key \<open>generated_text\<close> or lacks it.
\<close>

datatype gen_outcome = GenRaises | GenOutputs "string option list"

definition apology :: string where
  "apology = ''I apologize, but I'' @ [CHR 0x27] @
     ''m having trouble generating a response right now. Please try again.''"

text \<open>
  \<open>_prepare_context\<close>. The separator of the final join is written \<open>"\\n"\<close> in the
  source: a backslash followed by the letter n.
\<close>

definition prepare_context :: "retrieval_result list \<Rightarrow> string \<Rightarrow> string" where
  "prepare_context relevant_docs kg_context =
     (let context_parts0 =
            (if kg_context \<noteq> [] then [''Knowledge Graph Context: '' @ kg_context] else []);
          context_parts =
            (if relevant_docs \<noteq> [] then
               (let doc_texts = map (\<lambda>doc. py_slice_to 200 (res_text doc) @ ''...'')
                                  (py_slice_to 3 relevant_docs)
                in context_parts0 @ [''Relevant Information: '' @ py_join '' '' doc_texts])
             else context_parts0)
      in py_join [CHR 0x5C, CHR ''n''] context_parts)"

text \<open>
  \<open>_generate_with_context\<close>: everything happens inside one \<open>try\<close> whose handler returns
  the apology. A missing generator, a raising call, an empty output list and an output
  without \<open>generated_text\<close> all end in the handler. \<open>build_prompt\<close> is the formatted
  string the method passes to the generator.
\<close>

definition build_prompt :: "string \<Rightarrow> string \<Rightarrow> string" where
  "build_prompt query context =
     ''Context: '' @ context @ [CHR 0x0A, CHR 0x0A] @
     ''Question: '' @ query @ [CHR 0x0A, CHR 0x0A] @ ''Answer: ''"

definition generate_with_context ::
  "(string \<Rightarrow> gen_outcome) option \<Rightarrow> string \<Rightarrow> string \<Rightarrow> string" where
  "generate_with_context gen query context =
     (let prompt = build_prompt query context
      in case gen of
           None \<Rightarrow> apology
         | Some g \<Rightarrow>
            (case g prompt of
               GenRaises \<Rightarrow> apology
             | GenOutputs [] \<Rightarrow> apology
             | GenOutputs (None # _) \<Rightarrow> apology
             | GenOutputs (Some generated_text # _) \<Rightarrow>
                 clean_response (py_strip (last (py_split_str ''Answer: '' generated_text)))))"

text \<open>
  \<open>_get_kg_context\<close>. \<open>KnowledgeGraph.query_graph\<close> catches its own exceptions and
  returns a list of records; a record either has the key \<open>n.name\<close> or lacks it, and the
  lookup of a missing key raises inside the \<open>try\<close>, whose handler falls through to the
  final \<open>return ""\<close>.
\<close>

fun names_of :: "string option list \<Rightarrow> error + string list" where
  "names_of [] = Inr []"
| "names_of (None # rest) = Inl KeyError"
| "names_of (Some n # rest) =
     (case names_of rest of Inl e \<Rightarrow> Inl e | Inr ns \<Rightarrow> Inr (n # ns))"

definition kg_lookup ::
  "(string \<Rightarrow> string option list) \<Rightarrow> string \<Rightarrow> string \<Rightarrow> string \<Rightarrow> string \<Rightarrow> error + string option" where
  "kg_lookup query_graph query word cypher label =
     (if sublist word (py_lower query) then
        (let kg_results = query_graph cypher
         in if kg_results \<noteq> [] then
              (case names_of kg_results of
                 Inl e \<Rightarrow> Inl e
               | Inr names \<Rightarrow> Inr (Some (label @ py_join '', '' names)))
            else Inr None)
      else Inr None)"

definition get_kg_context :: "(string \<Rightarrow> string option list) \<Rightarrow> string \<Rightarrow> string" where
  "get_kg_context query_graph query =
     (case kg_lookup query_graph query ''standard''
             ''MATCH (n:MATStandard) RETURN n.name LIMIT 5'' ''Related MAT Standards: '' of
        Inl e \<Rightarrow> []
      | Inr (Some s) \<Rightarrow> s
      | Inr None \<Rightarrow>
          (case kg_lookup query_graph query ''organization''
                  ''MATCH (n:Organization) RETURN n.name LIMIT 3'' ''Related Organizations: '' of
             Inl e \<Rightarrow> []
           | Inr (Some s) \<Rightarrow> s
           | Inr None \<Rightarrow> []))"

text \<open>
  The state of a \<open>RAGSystem\<close> and the dictionary \<open>generate_response\<close> returns. The
  dictionary of the unloaded system has only the keys \<open>response\<close> and \<open>sources\<close>.
\<close>

record 'v rag_system =
  retriever :: "'v retriever"
  query_graph :: "string \<Rightarrow> string option list"
  generator :: "(string \<Rightarrow> gen_outcome) option"
  is_loaded :: bool

record rag_result =
  response :: string
  sources :: "string list"
  context_used :: "bool option"
  kg_context :: "bool option"

text \<open>
  \<open>generate_response\<close>. The call of \<open>retrieve\<close> is outside every \<open>try\<close>: what it raises
  leaves \<open>generate_response\<close>.
\<close>

definition generate_response ::
  "'v tfidf \<Rightarrow> 'v rag_system \<Rightarrow> string \<Rightarrow> bool \<Rightarrow> int \<Rightarrow> error + ('v rag_system \<times> rag_result)" where
  "generate_response lib sys query use_kg k =
     (if \<not> is_loaded sys then
        Inr (sys, \<lparr>response = ''Model not loaded. Please try again later.'', sources = [],
                   context_used = None, kg_context = None\<rparr>)
      else
        (case retrieve lib (retriever sys) query k of
           Inl e \<Rightarrow> Inl e
         | Inr (r1, relevant_docs) \<Rightarrow>
             (let kg_ctx = (if use_kg then get_kg_context (query_graph sys) query else []);
                  context = prepare_context relevant_docs kg_ctx;
                  resp = generate_with_context (generator sys) query context
              in Inr (sys\<lparr>retriever := r1\<rparr>,
                      \<lparr>response = resp,
                       sources = filter (\<lambda>u. u \<noteq> []) (map res_source_url relevant_docs),
                       context_used = Some (length relevant_docs > 0 \<or> kg_ctx \<noteq> []),
                       kg_context = Some (kg_ctx \<noteq> [])\<rparr>))))"

text \<open>
  The generator fails on a prompt when the \<open>try\<close> of \<open>_generate_with_context\<close> ends in
  its handler: it raises, or its output is malformed.
\<close>

definition generator_fails :: "(string \<Rightarrow> gen_outcome) option \<Rightarrow> string \<Rightarrow> bool" where
  "generator_fails gen prompt =
     (case gen of
        None \<Rightarrow> True
      | Some g \<Rightarrow>
         (case g prompt of
            GenRaises \<Rightarrow> True
          | GenOutputs [] \<Rightarrow> True
          | GenOutputs (None # _) \<Rightarrow> True
          | GenOutputs (Some _ # _) \<Rightarrow> False))"

text \<open>
  A loaded system over the four documents of \<open>mat_docs\<close>, with an empty graph and a
  generator that always raises; and a retrieved document of three characters.
\<close>

definition failing_system :: "unit rag_system" where
  "failing_system =
     \<lparr>retriever = mat_retriever, query_graph = (\<lambda>cypher. []),
      generator = Some (\<lambda>prompt. GenRaises), is_loaded = True\<rparr>"

definition short_doc :: retrieval_result where
  "short_doc = \<lparr>res_text = ''abc'', res_source_url = ''url1'', similarity = 1, index = 0\<rparr>"

text \<open>A retrieved document of 250 characters.\<close>

definition long_doc :: retrieval_result where
  "long_doc = \<lparr>res_text = replicate 250 CHR ''x'', res_source_url = ''url2'',
                similarity = 1, index = 1\<rparr>"

text \<open>
  A loaded system whose retriever never received documents: the model was loaded with
  \<open>load_model\<close>, and neither \<open>load_documents\<close> nor \<open>setup\<close> was called.
\<close>

definition no_documents_system :: "unit rag_system" where
  "no_documents_system =
     \<lparr>retriever = \<lparr>documents = None, document_vectors = None, is_fitted = False\<rparr>,
      query_graph = (\<lambda>cypher. []), generator = Some (\<lambda>prompt. GenRaises), is_loaded = True\<rparr>"

subsection \<open>Context composition\<close>

text \<open>
  Claim C6, as amended. The composed context is exactly this: the graph facts, when not
  empty, come first, after the label \<open>Knowledge Graph Context: \<close>; then, when there are
  retrieved documents, one segment after the label \<open>Relevant Information: \<close> that joins
  with a space the texts of the first three documents at most, each cut to its first 200
  characters and always followed by three dots, whether or not anything was cut; the
  two segments, when both are there, are joined by a backslash and the letter n. Nothing
  else is in the context.
\<close>

theorem prepare_context_layout:
  "prepare_context docs kg =
     (if kg \<noteq> [] then ''Knowledge Graph Context: '' @ kg else []) @
     (if kg \<noteq> [] \<and> docs \<noteq> [] then [CHR 0x5C, CHR ''n''] else []) @
     (if docs \<noteq> [] then
        ''Relevant Information: '' @
        py_join '' '' (map (\<lambda>d. take 200 (res_text d) @ ''...'') (take 3 docs))
      else [])"
  by (simp add: prepare_context_def Let_def py_slice_to_def)

text \<open>
  Claim C6 as stated fails: a text of three characters is not cut, and the three dots
  follow it all the same.
\<close>

theorem prepare_context_marker_counterexample:
  "prepare_context [short_doc] [] = ''Relevant Information: abc...''"
  by (simp add: prepare_context_def short_doc_def py_slice_to_def)

text \<open>
  With graph facts and four documents, the first of 250 characters: the first is cut to
  200, the fourth is left out.
\<close>

theorem prepare_context_layout_witness:
  "prepare_context [long_doc, short_doc, short_doc, short_doc] ''facts'' =
     ''Knowledge Graph Context: facts'' @ [CHR 0x5C, CHR ''n''] @
     ''Relevant Information: '' @ replicate 200 CHR ''x'' @ ''... abc... abc...''"
  using prepare_context_layout [of "[long_doc, short_doc, short_doc, short_doc]" "''facts''"]
  by (simp add: short_doc_def long_doc_def)

subsection \<open>Generation failures\<close>

lemma generate_with_context_fails:
  "generator_fails gen (build_prompt q c) \<Longrightarrow> generate_with_context gen q c = apology"
  unfolding generate_with_context_def generator_fails_def Let_def
  by (simp split: option.splits gen_outcome.splits list.splits)

text \<open>
  Claim C1, as amended. On a loaded system \<open>generate_response\<close> raises exactly when the
  retrieval step raises, and then with the same exception: the call of \<open>retrieve\<close> is not
  guarded. When the retrieval step returns, \<open>generate_response\<close> returns normally
  whatever the generator does; its sources are the non-empty URLs of the retrieved
  documents; and when the generator raises or returns malformed output on the prompt
  that is sent to it, the response is the fixed apology, the sources staying what they
  are.
\<close>

theorem generate_response_generator_failure:
  assumes "is_loaded sys"
  shows "(\<forall>e. retrieve lib (retriever sys) q k = Inl e \<longrightarrow>
            generate_response lib sys q use_kg k = Inl e) \<and>
         (\<forall>r1 found. retrieve lib (retriever sys) q k = Inr (r1, found) \<longrightarrow>
            (\<exists>res. generate_response lib sys q use_kg k = Inr (sys\<lparr>retriever := r1\<rparr>, res) \<and>
               sources res = filter (\<lambda>u. u \<noteq> []) (map res_source_url found) \<and>
               (generator_fails (generator sys)
                  (build_prompt q
                     (prepare_context found
                        (if use_kg then get_kg_context (query_graph sys) q else []))) \<longrightarrow>
                response res = apology)))"
  using assms
  by (auto simp: generate_response_def Let_def generate_with_context_fails)

lemma retrieve_mat_standards:
  "retrieve mat_lib mat_retriever ''MAT standards'' 3 =
     Inr (mat_retriever,
       [hit mat_docs [3/4, 0, 0, 1/4] 0, hit mat_docs [3/4, 0, 0, 1/4] 3])"
  by (simp add: retrieve_def mat_lib_def mat_retriever_def mat_docs_def argsort_def
      py_slice_from_def upt_conv_Cons hit_def)

lemma retrieve_no_documents:
  "retrieve mat_lib (retriever no_documents_system) q k = Inl ValueError"
  by (simp add: retrieve_def no_documents_system_def fit_def)

text \<open>
  Claim C1 as stated fails: with a generator that raises, the answer to
  \<open>MAT standards\<close> carries the apology and the two URLs of the retrieved documents,
  not an empty source list.
\<close>

theorem generate_response_sources_counterexample:
  "generate_response mat_lib failing_system ''MAT standards'' False 3 =
     Inr (failing_system,
          \<lparr>response = apology, sources = [''url1'', ''url4''],
           context_used = Some True, kg_context = Some False\<rparr>)"
  unfolding generate_response_def
  by (simp add: failing_system_def retrieve_mat_standards generate_with_context_def hit_def
      mat_docs_def)

text \<open>
  The same question with the graph consulted: two documents are retrieved, the
  generator raises, and the answer carries the apology and both URLs. On the system
  without documents the retrieval raises and so does \<open>generate_response\<close>.
\<close>

theorem generate_response_generator_failure_witness:
  "(\<exists>res. generate_response mat_lib failing_system ''MAT standards'' True 3 =
            Inr (failing_system, res) \<and>
          sources res = [''url1'', ''url4''] \<and> response res = apology) \<and>
   generate_response mat_lib no_documents_system ''MAT standards'' True 3 = Inl ValueError"
proof -
  have a: "retrieve mat_lib (retriever failing_system) ''MAT standards'' 3 =
     Inr (mat_retriever,
       [hit mat_docs [3/4, 0, 0, 1/4] 0, hit mat_docs [3/4, 0, 0, 1/4] 3])"
    using retrieve_mat_standards by (simp add: failing_system_def)
  have f: "generator_fails (generator failing_system) p" for p
    by (simp add: failing_system_def generator_fails_def)
  have s: "failing_system\<lparr>retriever := mat_retriever\<rparr> = failing_system"
    by (simp add: failing_system_def)
  have l: "is_loaded failing_system" "is_loaded no_documents_system"
    by (simp_all add: failing_system_def no_documents_system_def)
  from generate_response_generator_failure [OF l(1), of mat_lib "''MAT standards''" 3 True] a f s
  have "\<exists>res. generate_response mat_lib failing_system ''MAT standards'' True 3 =
            Inr (failing_system, res) \<and>
          sources res = [''url1'', ''url4''] \<and> response res = apology"
    by (simp add: hit_def mat_docs_def)
  moreover from generate_response_generator_failure
      [OF l(2), of mat_lib "''MAT standards''" 3 True] retrieve_no_documents
  have "generate_response mat_lib no_documents_system ''MAT standards'' True 3 = Inl ValueError"
    by simp
  ultimately show ?thesis by simp
qed

subsection \<open>Response clean-up\<close>

lemma not_space_dot: "\<not> is_space CHR ''.''"
  by (simp add: is_space_def)

lemma py_split_last_sep:
  "sep \<notin> set b \<Longrightarrow> py_split sep (a @ sep # b) = py_split sep a @ [b]"
proof (induction a)
  case Nil
  then show ?case by (simp add: py_split_no_sep)
next
  case (Cons c a)
  then show ?case
    using py_split_not_Nil [of sep a] by (cases "py_split sep a") auto
qed

lemma py_join_Cons_Cons: "py_join sep ((c # p) # ps) = c # py_join sep (p # ps)"
  by (cases ps) simp_all

lemma py_join_split: "py_join [sep] (py_split sep s) = s"
proof (induction s)
  case Nil
  then show ?case by simp
next
  case (Cons c s)
  show ?case
  proof (cases "c = sep")
    case True
    then show ?thesis
      using Cons py_split_not_Nil [of sep s] by (cases "py_split sep s") auto
  next
    case False
    then show ?thesis
      using Cons py_split_not_Nil [of sep s]
      by (cases "py_split sep s") (auto simp: py_join_Cons_Cons)
  qed
qed

lemma remove_trailing_incomplete_no_dot:
  "CHR ''.'' \<notin> set s \<Longrightarrow> remove_trailing_incomplete s = s"
  by (simp add: remove_trailing_incomplete_def py_split_no_sep)

lemma remove_trailing_incomplete_dot:
  assumes "CHR ''.'' \<notin> set b"
  shows "remove_trailing_incomplete (a @ CHR ''.'' # b) =
           (if length (py_strip b) < 10 then a @ ''.'' else a @ CHR ''.'' # b)"
  using assms py_split_not_Nil [of "CHR ''.''" a]
  by (simp add: remove_trailing_incomplete_def py_split_last_sep py_join_split)



lemma py_strip_Nil: "py_strip [] = []"
  by (simp add: py_strip_def py_lstrip_def py_rstrip_def)

lemma remove_trailing_incomplete_ends_dot:
  "remove_trailing_incomplete (a @ ''.'') = a @ ''.''"
  using remove_trailing_incomplete_dot [of "[]" a] by (simp add: py_strip_Nil)

lemma py_rstrip_snoc: "\<not> is_space c \<Longrightarrow> py_rstrip (y @ [c]) = y @ [c]"
  by (simp add: py_rstrip_def)

lemma py_rstrip_cases:
  "py_rstrip s = [] \<or> (\<exists>y c. py_rstrip s = y @ [c] \<and> \<not> is_space c)"
proof (cases "dropWhile is_space (rev s)")
  case Nil
  then show ?thesis by (simp add: py_rstrip_def)
next
  case (Cons c y)
  then have "\<not> is_space c" using hd_dropWhile [of is_space "rev s"] by auto
  with Cons show ?thesis by (simp add: py_rstrip_def)
qed

lemma py_lstrip_snoc: "\<not> is_space c \<Longrightarrow> \<exists>y'. py_lstrip (y @ [c]) = y' @ [c]"
  by (simp add: py_lstrip_def dropWhile_append)

lemma py_lstrip_idem: "py_lstrip (py_lstrip s) = py_lstrip s"
  by (simp add: py_lstrip_def)

lemma py_rstrip_idem: "py_rstrip (py_rstrip s) = py_rstrip s"
  by (simp add: py_rstrip_def)

lemma py_strip_ends:
  "\<not> is_space c \<Longrightarrow> \<exists>y'. py_strip (y @ [c]) = y' @ [c] \<and> py_strip (y @ [c]) = py_lstrip (y @ [c])"
  using py_lstrip_snoc [of c y] by (simp add: py_strip_def py_rstrip_snoc)

lemma py_strip_idem: "py_strip (py_strip s) = py_strip s"
proof -
  consider "py_rstrip s = []" | y c where "py_rstrip s = y @ [c]" "\<not> is_space c"
    using py_rstrip_cases by blast
  then show ?thesis
  proof cases
    case 1
    then have "py_strip s = []" by (simp add: py_strip_def py_lstrip_def)
    then show ?thesis by (simp add: py_strip_Nil)
  next
    case 2
    obtain y' where y': "py_lstrip (y @ [c]) = y' @ [c]"
      using py_lstrip_snoc [OF 2(2)] by blast
    have "py_strip s = y' @ [c]" using 2(1) y' by (simp add: py_strip_def)
    moreover have "py_strip (y' @ [c]) = py_lstrip (y' @ [c])"
      using 2(2) by (simp add: py_strip_def py_rstrip_snoc)
    moreover have "py_lstrip (y' @ [c]) = y' @ [c]"
      using y' py_lstrip_idem [of "y @ [c]"] by simp
    ultimately show ?thesis by simp
  qed
qed

lemma length_py_strip: "length (py_strip s) \<le> length s"
proof -
  have "length (py_strip s) \<le> length (py_rstrip s)"
    by (simp add: py_strip_def py_lstrip_def length_dropWhile_le)
  also have "\<dots> \<le> length s"
    using length_dropWhile_le [of is_space "rev s"] by (simp add: py_rstrip_def)
  finally show ?thesis .
qed

lemma set_py_strip: "set (py_strip s) \<subseteq> set s"
proof -
  have "set (py_strip s) \<subseteq> set (py_rstrip s)"
    by (auto simp: py_strip_def py_lstrip_def dest: set_dropWhileD)
  also have "\<dots> \<subseteq> set s"
    by (auto simp: py_rstrip_def dest: set_dropWhileD)
  finally show ?thesis .
qed

lemma py_rstrip_append: "py_rstrip y \<noteq> [] \<Longrightarrow> py_rstrip (x @ y) = x @ py_rstrip y"
  by (auto simp: py_rstrip_def dropWhile_append)

lemma py_lstrip_append: "py_lstrip x \<noteq> [] \<Longrightarrow> py_lstrip (x @ y) = py_lstrip x @ y"
  by (auto simp: py_lstrip_def dropWhile_append)

lemma py_strip_dot_fragment:
  assumes "py_strip b \<noteq> []"
  shows "\<exists>a'. py_strip (a @ CHR ''.'' # b) = a' @ CHR ''.'' # py_rstrip b"
proof -
  have rb: "py_rstrip b \<noteq> []"
    using assms by (auto simp: py_strip_def py_lstrip_def)
  obtain a' where a': "py_lstrip (a @ ''.'') = a' @ ''.''"
    using py_lstrip_snoc [OF not_space_dot] by blast
  have "py_rstrip (a @ CHR ''.'' # b) = (a @ ''.'') @ py_rstrip b"
    using py_rstrip_append [OF rb, of "a @ ''.''"] by simp
  then have "py_strip (a @ CHR ''.'' # b) = py_lstrip ((a @ ''.'') @ py_rstrip b)"
    by (simp add: py_strip_def)
  also have "\<dots> = py_lstrip (a @ ''.'') @ py_rstrip b"
    by (rule py_lstrip_append) (simp add: a')
  finally show ?thesis using a' by simp
qed

lemma py_strip_rstrip: "py_strip (py_rstrip b) = py_strip b"
  by (simp add: py_strip_def py_rstrip_idem)

text \<open>The first step does nothing to a text that was cleaned before.\<close>

lemma remove_trailing_incomplete_stable:
  "remove_trailing_incomplete (py_strip (remove_trailing_incomplete s)) =
     py_strip (remove_trailing_incomplete s)"
proof (cases "CHR ''.'' \<in> set s")
  case False
  then have "CHR ''.'' \<notin> set (py_strip s)" using set_py_strip by blast
  with False show ?thesis by (simp add: remove_trailing_incomplete_no_dot)
next
  case True
  then obtain a b where s: "s = a @ CHR ''.'' # b" and b: "CHR ''.'' \<notin> set b"
    using split_list_last [of "CHR ''.''" s] by blast
  show ?thesis
  proof (cases "length (py_strip b) < 10")
    case True
    obtain a' where "py_strip (a @ ''.'') = a' @ ''.''"
      using py_strip_ends [OF not_space_dot] by blast
    with True s b show ?thesis
      by (simp add: remove_trailing_incomplete_dot remove_trailing_incomplete_ends_dot)
  next
    case False
    then have ne: "py_strip b \<noteq> []" by auto
    obtain a' where a': "py_strip (a @ CHR ''.'' # b) = a' @ CHR ''.'' # py_rstrip b"
      using py_strip_dot_fragment [OF ne] by blast
    have "CHR ''.'' \<notin> set (py_rstrip b)"
      using b by (auto simp: py_rstrip_def dest: set_dropWhileD)
    then have "remove_trailing_incomplete (a' @ CHR ''.'' # py_rstrip b) =
        a' @ CHR ''.'' # py_rstrip b"
      using False by (simp add: remove_trailing_incomplete_dot py_strip_rstrip)
    with False s b a' show ?thesis
      by (simp add: remove_trailing_incomplete_dot)
  qed
qed

lemma clean_response_short:
  assumes "length (remove_trailing_incomplete s) \<le> 500"
  shows "clean_response (clean_response s) = clean_response s"
proof -
  let ?r = "py_strip (remove_trailing_incomplete s)"
  have r: "clean_response s = ?r"
    using assms by (simp add: clean_response_def limit_length_def)
  have "length ?r \<le> 500"
    using assms length_py_strip [of "remove_trailing_incomplete s"] by simp
  then have "clean_response ?r = py_strip ?r"
    by (simp add: clean_response_def limit_length_def remove_trailing_incomplete_stable)
  then show ?thesis
    unfolding r by (simp add: py_strip_idem)
qed


lemma py_lstrip_append_nonspace:
  "q \<noteq> [] \<Longrightarrow> \<not> is_space (hd q) \<Longrightarrow>
   py_lstrip (p @ q) = drop (length (takeWhile is_space p)) p @ q"
  by (induction p) (auto simp: py_lstrip_def neq_Nil_conv)

lemma length_takeWhile_take:
  "length (takeWhile P (take k xs)) = min k (length (takeWhile P xs))"
proof (induction xs arbitrary: k)
  case Nil
  then show ?case by simp
next
  case (Cons x xs)
  then show ?case by (cases k) auto
qed

text \<open>
  A text of more than 500 characters after the first step: the cleaned text is the first
  500 characters without their leading whitespace, followed by three dots.
\<close>

lemma clean_response_long:
  assumes "500 < length (remove_trailing_incomplete s)"
  shows "clean_response s =
           drop (length (takeWhile is_space (take 500 (remove_trailing_incomplete s))))
             (take 500 (remove_trailing_incomplete s)) @ ''...''"
proof -
  let ?p = "take 500 (remove_trailing_incomplete s)"
  have "clean_response s = py_strip (?p @ ''...'')"
    using assms by (simp add: clean_response_def limit_length_def py_slice_to_def)
  also have "\<dots> = py_lstrip (?p @ ''...'')"
    using py_strip_ends [OF not_space_dot, of "?p @ ''..''"] by simp
  also have "\<dots> = drop (length (takeWhile is_space ?p)) ?p @ ''...''"
    by (rule py_lstrip_append_nonspace) (simp_all add: not_space_dot)
  finally show ?thesis .
qed

lemma clean_response_of_cut:
  assumes "length p = 500" and n: "n = length (takeWhile is_space p)"
  shows "clean_response (drop n p @ ''...'') = drop n p @ ''...'' \<longleftrightarrow> n \<notin> {1, 2}"
proof -
  let ?r = "drop n p @ ''...''"
  have n500: "n \<le> 500" using assms length_takeWhile_le [of is_space p] by simp
  have len: "length ?r = 503 - n" using assms n500 by simp
  have rti: "remove_trailing_incomplete ?r = ?r"
    using remove_trailing_incomplete_ends_dot [of "drop n p @ ''..''"] by simp
  have ls: "py_lstrip ?r = ?r"
  proof -
    have "py_lstrip (p @ ''...'') = ?r"
      unfolding n by (rule py_lstrip_append_nonspace) (simp_all add: not_space_dot)
    then show ?thesis using py_lstrip_idem [of "p @ ''...''"] by simp
  qed
  have strip: "py_strip ?r = ?r"
    using py_strip_ends [OF not_space_dot, of "drop n p @ ''..''"] ls by simp
  show ?thesis
  proof (cases "n \<in> {1, 2}")
    case False
    then consider "n = 0" | "3 \<le> n" by fastforce
    then have "clean_response ?r = ?r"
    proof cases
      case 1
      then show ?thesis
        using assms(1) strip rti
        by (simp add: clean_response_def limit_length_def py_slice_to_def)
    next
      case 2
      then have "length ?r \<le> 500" using len by simp
      then show ?thesis
        using strip by (simp add: clean_response_def rti limit_length_def)
    qed
    with False show ?thesis by simp
  next
    case True
    then have n12: "0 < n" "n < 3" by auto
    have gt: "500 < length ?r" using len n12 by simp
    have "n < length p" using assms(1) n12 by simp
    then have ns: "\<not> is_space (p ! n)"
      unfolding n by (rule nth_length_takeWhile)
    have dne: "drop n p \<noteq> []" using \<open>n < length p\<close> by simp
    have hd: "hd (drop n p) = p ! n" using \<open>n < length p\<close> by (simp add: hd_drop_conv_nth)
    let ?x = "take 500 ?r"
    have x: "?x = drop n p @ take n ''...''"
      using assms(1) n500 by simp
    have xne: "?x @ ''..'' \<noteq> []" by simp
    have "hd ?x = p ! n" unfolding x using dne hd by simp
    then obtain x' where x': "?x = p ! n # x'"
      using dne x by (cases ?x) auto
    have "clean_response ?r = py_strip (?x @ ''...'')"
      using gt by (simp add: clean_response_def rti limit_length_def py_slice_to_def)
    also have "\<dots> = py_lstrip (?x @ ''...'')"
      using py_strip_ends [OF not_space_dot, of "?x @ ''..''"] by simp
    also have "\<dots> = ?x @ ''...''"
      unfolding x' using ns by (simp add: py_lstrip_def)
    finally have "length (clean_response ?r) = 503"
      using gt by simp
    then have "clean_response ?r \<noteq> ?r" using len n12 by auto
    with True show ?thesis by simp
  qed
qed

lemma clean_response_idempotent_iff:
  "clean_response (clean_response s) = clean_response s \<longleftrightarrow>
     \<not> (500 < length (remove_trailing_incomplete s) \<and>
        length (takeWhile is_space (remove_trailing_incomplete s)) \<in> {1, 2})"
proof (cases "500 < length (remove_trailing_incomplete s)")
  case False
  then have "clean_response (clean_response s) = clean_response s"
    by (intro clean_response_short) simp
  with False show ?thesis by simp
next
  case True
  let ?t = "remove_trailing_incomplete s"
  let ?p = "take 500 ?t"
  let ?n = "length (takeWhile is_space ?p)"
  have lp: "length ?p = 500" using True by simp
  have n: "?n = min 500 (length (takeWhile is_space ?t))"
    by (rule length_takeWhile_take)
  have "clean_response (clean_response s) = clean_response s \<longleftrightarrow> ?n \<notin> {1, 2}"
    unfolding clean_response_long [OF True]
    using clean_response_of_cut [OF lp refl] .
  also have "\<dots> \<longleftrightarrow> length (takeWhile is_space ?t) \<notin> {1, 2}"
    unfolding n by auto
  finally show ?thesis using True by simp
qed


lemma length_remove_trailing_incomplete:
  "length (remove_trailing_incomplete s) \<le> length s"
proof (cases "CHR ''.'' \<in> set s")
  case False
  then show ?thesis by (simp add: remove_trailing_incomplete_no_dot)
next
  case True
  then obtain a b where "s = a @ CHR ''.'' # b" "CHR ''.'' \<notin> set b"
    using split_list_last [of "CHR ''.''" s] by blast
  then show ?thesis by (simp add: remove_trailing_incomplete_dot)
qed

lemma remove_trailing_incomplete_no_leading_space:
  assumes "py_lstrip s = s"
  shows "takeWhile is_space (remove_trailing_incomplete s) = []"
proof -
  have s: "takeWhile is_space s = []"
    using assms takeWhile_dropWhile_id [of is_space s] by (simp add: py_lstrip_def)
  show ?thesis
  proof (cases "CHR ''.'' \<in> set s")
    case False
    with s show ?thesis by (simp add: remove_trailing_incomplete_no_dot)
  next
    case True
    then obtain a b where ab: "s = a @ CHR ''.'' # b" "CHR ''.'' \<notin> set b"
      using split_list_last [of "CHR ''.''" s] by blast
    have "takeWhile is_space (a @ ''.'') = []"
      using s ab(1) not_space_dot by (cases a) (auto split: if_splits)
    with s ab show ?thesis by (simp add: remove_trailing_incomplete_dot)
  qed
qed

text \<open>
  Claim C7, as amended. \<open>clean_response\<close> drops the piece after the last full stop when
  that piece, stripped, has fewer than 10 characters (inner spaces count), cuts a text of
  more than 500 characters to 500 and appends three dots, and strips the result. Applying
  it twice gives the same as applying it once exactly when it is not the case that the
  text left by the first of these steps has more than 500 characters and begins with
  exactly one or two whitespace characters. In particular it is idempotent on every text
  of at most 500 characters and on every text that does not begin with whitespace.
\<close>

theorem clean_response_idempotence:
  "(clean_response (clean_response s) = clean_response s \<longleftrightarrow>
      \<not> (500 < length (remove_trailing_incomplete s) \<and>
         length (takeWhile is_space (remove_trailing_incomplete s)) \<in> {1, 2})) \<and>
   (length s \<le> 500 \<or> py_lstrip s = s \<longrightarrow>
      clean_response (clean_response s) = clean_response s)"
proof (intro conjI impI)
  show "clean_response (clean_response s) = clean_response s \<longleftrightarrow>
      \<not> (500 < length (remove_trailing_incomplete s) \<and>
         length (takeWhile is_space (remove_trailing_incomplete s)) \<in> {1, 2})"
    by (rule clean_response_idempotent_iff)
next
  assume "length s \<le> 500 \<or> py_lstrip s = s"
  then show "clean_response (clean_response s) = clean_response s"
  proof
    assume "length s \<le> 500"
    then have "length (remove_trailing_incomplete s) \<le> 500"
      using length_remove_trailing_incomplete [of s] by simp
    then show ?thesis by (rule clean_response_short)
  next
    assume "py_lstrip s = s"
    then have "takeWhile is_space (remove_trailing_incomplete s) = []"
      by (rule remove_trailing_incomplete_no_leading_space)
    then show ?thesis by (simp add: clean_response_idempotent_iff)
  qed
qed

text \<open>
  Claim C7 as stated fails on a space followed by 500 letters: the first pass cuts to 500
  characters, appends three dots and strips the space, which leaves 502 characters; the
  second pass cuts again, inside the dots, and appends three more.
\<close>

theorem clean_response_not_idempotent_counterexample:
  "clean_response (clean_response (CHR '' '' # replicate 500 CHR ''a'')) \<noteq>
     clean_response (CHR '' '' # replicate 500 CHR ''a'') \<and>
   clean_response (CHR '' '' # replicate 500 CHR ''a'') = replicate 499 CHR ''a'' @ ''...'' \<and>
   clean_response (clean_response (CHR '' '' # replicate 500 CHR ''a'')) =
     replicate 499 CHR ''a'' @ ''....''"
proof -
  have a: "clean_response (CHR '' '' # replicate 500 CHR ''a'') =
      replicate 499 CHR ''a'' @ ''...''"
    by code_simp
  have b: "clean_response (replicate 499 CHR ''a'' @ ''...'') =
      replicate 499 CHR ''a'' @ ''....''"
    by code_simp
  show ?thesis unfolding a b by simp
qed

theorem clean_response_idempotence_witness:
  "clean_response (clean_response ''The dose is taken daily. See'') =
     clean_response ''The dose is taken daily. See'' \<and>
   clean_response ''The dose is taken daily. See'' = ''The dose is taken daily.''"
proof -
  have w: "clean_response ''The dose is taken daily. See'' = ''The dose is taken daily.''"
    by code_simp
  from clean_response_idempotence [of "''The dose is taken daily. See''"]
  have "clean_response (clean_response ''The dose is taken daily. See'') =
      clean_response ''The dose is taken daily. See''"
    by simp
  with w show ?thesis by simp
qed

section \<open>The evaluation engine (evaluation.py)\<close>

text \<open>
  A test case has the keys \<open>question\<close>, \<open>expected_answer\<close> and \<open>category\<close>. The scores of
  one answer are the dictionary \<open>evaluate_response\<close> returns; an evaluation record is
  that dictionary after \<open>metrics.update\<close> added the metadata of the case.
\<close>

record test_case =
  tc_question :: string
  tc_expected_answer :: string
  tc_category :: string

record scores =
  rouge1_f :: real
  rouge2_f :: real
  rougeL_f :: real
  bleu :: real
  length_ratio :: real
  keyword_overlap :: real

record eval_record = scores +
  question :: string
  expected :: string
  generated :: string
  category :: string
  response_time :: real
  sources_found :: nat
  rec_context_used :: bool

text \<open>
  What the evaluator takes from outside: scikit-learn and NumPy (\<open>tfidf_lib\<close>), the CSV
  file that \<open>load_documents\<close> reads (\<open>read_csv\<close>: the table, or the exception of the
  reader), the language model (\<open>load_pipeline\<close>: the pipeline that \<open>load_model\<close> or its
  fallback builds, or \<open>None\<close> when both fail), the ROUGE scorer (the three F-measures of
  a reference and a generated text), NLTK's \<open>sentence_bleu\<close> with the evaluator's
  smoothing function, and the clock (\<open>elapsed i\<close>: the difference of the two readings
  of \<open>time.time()\<close> around the i-th call of \<open>generate_response\<close>).
\<close>

record 'v eval_env =
  tfidf_lib :: "'v tfidf"
  read_csv :: "error + row list"
  load_pipeline :: "(string \<Rightarrow> gen_outcome) option"
  rouge_fmeasures :: "string \<Rightarrow> string \<Rightarrow> real \<times> real \<times> real"
  sentence_bleu :: "string list \<Rightarrow> string list \<Rightarrow> real"
  elapsed :: "nat \<Rightarrow> real"

text \<open>\<open>s.split()\<close>: the maximal runs of characters that are not whitespace.\<close>

fun split_ws :: "string \<Rightarrow> string \<Rightarrow> string list" where
  "split_ws cur [] = (if cur = [] then [] else [rev cur])"
| "split_ws cur (c # cs) =
     (if is_space c then (if cur = [] then split_ws [] cs else rev cur # split_ws [] cs)
      else split_ws (c # cur) cs)"

definition py_words :: "string \<Rightarrow> string list" where
  "py_words s = split_ws [] s"

definition evaluate_response :: "'v eval_env \<Rightarrow> string \<Rightarrow> string \<Rightarrow> scores" where
  "evaluate_response env reference gen_text =
     (let (r1, r2, rl) = rouge_fmeasures env reference gen_text;
          reference_tokens = py_words reference;
          generated_tokens = py_words gen_text;
          bleu_score = sentence_bleu env reference_tokens generated_tokens;
          ratio = real (length generated_tokens) / real (max (length reference_tokens) 1);
          ref_words = set (py_words (py_lower reference));
          gen_words = set (py_words (py_lower gen_text));
          overlap = real (card (ref_words \<inter> gen_words)) / real (max (card ref_words) 1)
      in \<lparr>rouge1_f = r1, rouge2_f = r2, rougeL_f = rl, bleu = bleu_score,
          length_ratio = ratio, keyword_overlap = overlap\<rparr>)"

text \<open>
  \<open>DocumentRetriever.load_documents\<close> (the exception of the reader is raised again),
  \<open>RAGSystem.load_model\<close> with its fallback (it never raises: when both models fail the
  system stays unloaded) and \<open>RAGSystem.setup\<close> (here \<open>rag_setup\<close>).
\<close>

definition load_documents :: "'v eval_env \<Rightarrow> 'v retriever \<Rightarrow> error + 'v retriever" where
  "load_documents env r =
     (case read_csv env of
        Inl e \<Rightarrow> Inl e
      | Inr docs \<Rightarrow> Inr (r\<lparr>documents := Some docs\<rparr>))"

definition load_model :: "'v eval_env \<Rightarrow> 'v rag_system \<Rightarrow> 'v rag_system" where
  "load_model env sys =
     (case load_pipeline env of
        None \<Rightarrow> sys\<lparr>is_loaded := False\<rparr>
      | Some g \<Rightarrow> sys\<lparr>generator := Some g, is_loaded := True\<rparr>)"

definition rag_setup :: "'v eval_env \<Rightarrow> 'v rag_system \<Rightarrow> error + 'v rag_system" where
  "rag_setup env sys =
     (case load_documents env (retriever sys) of
        Inl e \<Rightarrow> Inl e
      | Inr r1 \<Rightarrow>
          (case fit (tfidf_lib env) r1 of
             Inl e \<Rightarrow> Inl e
           | Inr r2 \<Rightarrow>
               (let sys2 = sys\<lparr>retriever := r2\<rparr>
                in Inr (if \<not> is_loaded sys2 then load_model env sys2 else sys2))))"

definition create_test_dataset :: "test_case list" where
  "create_test_dataset =
     [\<lparr>tc_question = ''What are the MAT standards?'',
       tc_expected_answer = ''MAT standards are Medication-Assisted Treatment standards that provide guidelines for treatment implementation.'',
       tc_category = ''general''\<rparr>,
      \<lparr>tc_question = ''What is MAT Standard 1?'',
       tc_expected_answer = ''MAT Standard 1 focuses on access and choice in medication-assisted treatment.'',
       tc_category = ''specific_standard''\<rparr>,
      \<lparr>tc_question = ''How are MAT standards implemented?'',
       tc_expected_answer = ''MAT standards are implemented through healthcare organizations and supported by various agencies.'',
       tc_category = ''implementation''\<rparr>,
      \<lparr>tc_question = ''What is the aim of MAT?'',
       tc_expected_answer = ''The aim of MAT is to provide effective medication-assisted treatment for substance use disorders.'',
       tc_category = ''purpose''\<rparr>,
      \<lparr>tc_question = ''Which organizations support MAT?'',
       tc_expected_answer = ''Organizations like Public Health Scotland and NHS support MAT implementation.'',
       tc_category = ''organizations''\<rparr>]"

text \<open>
  \<open>sum(values) / len(values)\<close>, \<open>min(values)\<close> and \<open>max(values)\<close> with what they raise
  on the empty list.
\<close>

definition py_mean :: "real list \<Rightarrow> error + real" where
  "py_mean values = (if values = [] then Inl ZeroDivisionError
                     else Inr (sum_list values / real (length values)))"

definition py_min :: "real list \<Rightarrow> error + real" where
  "py_min values = (if values = [] then Inl ValueError else Inr (fold min (tl values) (hd values)))"

definition py_max :: "real list \<Rightarrow> error + real" where
  "py_max values = (if values = [] then Inl ValueError else Inr (fold max (tl values) (hd values)))"

text \<open>
  The list \<open>metrics\<close> of \<open>_calculate_aggregate_metrics\<close>, each name with the lookup
  \<open>r[metric]\<close> it stands for. \<open>length_ratio\<close> is not in the list.
\<close>

definition metrics :: "(string \<times> (eval_record \<Rightarrow> real)) list" where
  "metrics = [(''rouge1_f'', rouge1_f), (''rouge2_f'', rouge2_f), (''rougeL_f'', rougeL_f),
              (''bleu'', bleu), (''keyword_overlap'', keyword_overlap)]"

text \<open>
  The first loop of \<open>_calculate_aggregate_metrics\<close>: mean, minimum and maximum of every
  metric over all records. The dictionary \<open>aggregates\<close> is a map from keys to numbers.
\<close>

fun aggregate_global ::
  "(string \<times> (eval_record \<Rightarrow> real)) list \<Rightarrow> eval_record list \<Rightarrow> (string \<rightharpoonup> real) \<Rightarrow>
   error + (string \<rightharpoonup> real)" where
  "aggregate_global [] results aggregates = Inr aggregates"
| "aggregate_global ((metric, get) # rest) results aggregates =
     (let values = map get results
      in case py_mean values of
           Inl e \<Rightarrow> Inl e
         | Inr mean \<Rightarrow>
            (case py_min values of
               Inl e \<Rightarrow> Inl e
             | Inr lo \<Rightarrow>
                (case py_max values of
                   Inl e \<Rightarrow> Inl e
                 | Inr hi \<Rightarrow>
                     aggregate_global rest results
                       (aggregates(metric @ ''_mean'' \<mapsto> mean, metric @ ''_min'' \<mapsto> lo,
                                   metric @ ''_max'' \<mapsto> hi)))))"

text \<open>
  The second loop: for every category found in the records, the mean of every metric
  over the records of that category. The categories are a Python set, visited in an
  order the language does not fix; they are taken here in the order of their first
  record, and no two keys that the loop writes are equal (lemma
  \<open>distinct_category_keys\<close>), so the order does not change the result.
\<close>

fun aggregate_category_metrics ::
  "(string \<times> (eval_record \<Rightarrow> real)) list \<Rightarrow> string \<Rightarrow> eval_record list \<Rightarrow>
   (string \<rightharpoonup> real) \<Rightarrow> error + (string \<rightharpoonup> real)" where
  "aggregate_category_metrics [] cat category_results aggregates = Inr aggregates"
| "aggregate_category_metrics ((metric, get) # rest) cat category_results aggregates =
     (case py_mean (map get category_results) of
        Inl e \<Rightarrow> Inl e
      | Inr mean \<Rightarrow>
          aggregate_category_metrics rest cat category_results
            (aggregates(cat @ ''_'' @ metric @ ''_mean'' \<mapsto> mean)))"

fun aggregate_categories ::
  "string list \<Rightarrow> eval_record list \<Rightarrow> (string \<rightharpoonup> real) \<Rightarrow> error + (string \<rightharpoonup> real)" where
  "aggregate_categories [] results aggregates = Inr aggregates"
| "aggregate_categories (cat # cats) results aggregates =
     (let category_results = filter (\<lambda>r. category r = cat) results
      in case aggregate_category_metrics metrics cat category_results aggregates of
           Inl e \<Rightarrow> Inl e
         | Inr aggregates1 \<Rightarrow> aggregate_categories cats results aggregates1)"

definition calculate_aggregate_metrics :: "eval_record list \<Rightarrow> error + (string \<rightharpoonup> real)" where
  "calculate_aggregate_metrics results =
     (case aggregate_global metrics results Map.empty of
        Inl e \<Rightarrow> Inl e
      | Inr aggregates \<Rightarrow>
          aggregate_categories (remdups (map category results)) results aggregates)"

text \<open>
  The loop of \<open>run_evaluation\<close> over the test cases, from case number i on: it returns
  the system as the calls left it, the records in order and the sum of the response
  times. An exception of \<open>generate_response\<close> is not caught.
\<close>

fun evaluate_cases ::
  "'v eval_env \<Rightarrow> 'v rag_system \<Rightarrow> nat \<Rightarrow> test_case list \<Rightarrow>
   error + ('v rag_system \<times> eval_record list \<times> real)" where
  "evaluate_cases env sys i [] = Inr (sys, [], 0)"
| "evaluate_cases env sys i (test_case # rest) =
     (case generate_response (tfidf_lib env) sys (tc_question test_case) True 3 of
        Inl e \<Rightarrow> Inl e
      | Inr (sys1, result) \<Rightarrow>
          (let m = evaluate_response env (tc_expected_answer test_case) (response result);
               rec = \<lparr>rouge1_f = rouge1_f m, rouge2_f = rouge2_f m, rougeL_f = rougeL_f m,
                      bleu = bleu m, length_ratio = length_ratio m,
                      keyword_overlap = keyword_overlap m,
                      question = tc_question test_case,
                      expected = tc_expected_answer test_case,
                      generated = response result,
                      category = tc_category test_case,
                      response_time = elapsed env i,
                      sources_found = length (sources result),
                      rec_context_used = (case context_used result of None \<Rightarrow> False | Some b \<Rightarrow> b)\<rparr>
           in case evaluate_cases env sys1 (Suc i) rest of
                Inl e \<Rightarrow> Inl e
              | Inr (sys2, results, total_time) \<Rightarrow>
                  Inr (sys2, rec # results, elapsed env i + total_time)))"

text \<open>
  The first statement of \<open>run_evaluation\<close> after the choice of the test cases: a system
  that is not loaded is set up.
\<close>

definition ensure_setup :: "'v eval_env \<Rightarrow> 'v rag_system \<Rightarrow> error + 'v rag_system" where
  "ensure_setup env sys = (if \<not> is_loaded sys then rag_setup env sys else Inr sys)"

text \<open>The dictionary \<open>run_evaluation\<close> returns.\<close>

record report =
  individual_results :: "eval_record list"
  aggregate_metrics :: "string \<rightharpoonup> real"
  test_cases_count :: nat

definition run_evaluation ::
  "'v eval_env \<Rightarrow> 'v rag_system \<Rightarrow> test_case list option \<Rightarrow> error + ('v rag_system \<times> report)" where
  "run_evaluation env sys test_cases_arg =
     (let test_cases = (case test_cases_arg of None \<Rightarrow> create_test_dataset | Some tcs \<Rightarrow> tcs)
      in case ensure_setup env sys of
           Inl e \<Rightarrow> Inl e
         | Inr sys1 \<Rightarrow>
            (case evaluate_cases env sys1 0 test_cases of
               Inl e \<Rightarrow> Inl e
             | Inr (sys2, results, total_time) \<Rightarrow>
                (case calculate_aggregate_metrics results of
                   Inl e \<Rightarrow> Inl e
                 | Inr aggregates \<Rightarrow>
                    (if length test_cases = 0 then Inl ZeroDivisionError
                     else Inr (sys2,
                            \<lparr>individual_results = results,
                             aggregate_metrics =
                               aggregates(''total_evaluation_time'' \<mapsto> total_time,
                                          ''average_response_time'' \<mapsto>
                                            total_time / real (length test_cases)),
                             test_cases_count = length test_cases\<rparr>)))))"

text \<open>
  An environment for the examples: the library and the four documents of the retriever
  tests, no language model to load, scorers that give 1 to an answer equal to the
  reference and 0 to any other, and a clock on which every call takes one second.
\<close>

definition demo_env :: "unit eval_env" where
  "demo_env =
     \<lparr>tfidf_lib = mat_lib, read_csv = Inr mat_docs, load_pipeline = None,
      rouge_fmeasures = (\<lambda>reference gen_text. if reference = gen_text then (1, 1, 1) else (0, 0, 0)),
      sentence_bleu = (\<lambda>reference_tokens generated_tokens.
                         if reference_tokens = generated_tokens then 1 else 0),
      elapsed = (\<lambda>i. 1)\<rparr>"

text \<open>
  A loaded system whose index is stale: it was fitted on the four documents and a table
  with only the first of them was loaded afterwards.
\<close>

definition stale_system :: "unit rag_system" where
  "stale_system =
     \<lparr>retriever = \<lparr>documents = Some [hd mat_docs], document_vectors = Some (), is_fitted = True\<rparr>,
      query_graph = (\<lambda>cypher. []), generator = Some (\<lambda>prompt. GenRaises), is_loaded = True\<rparr>"

definition zebra_case :: test_case where
  "zebra_case = \<lparr>tc_question = ''zebra'', tc_expected_answer = ''No idea.'',
                  tc_category = ''general''\<rparr>"

definition mat_case :: test_case where
  "mat_case = \<lparr>tc_question = ''MAT standards'', tc_expected_answer = ''They are standards.'',
                tc_category = ''general''\<rparr>"

subsection \<open>Runs that raise\<close>

lemma calculate_aggregate_metrics_empty:
  "calculate_aggregate_metrics [] = Inl ZeroDivisionError"
  by (simp add: calculate_aggregate_metrics_def metrics_def py_mean_def)

lemma evaluate_cases_append:
  "evaluate_cases env sys i (pre @ tcs) =
     (case evaluate_cases env sys i pre of
        Inl e \<Rightarrow> Inl e
      | Inr (sys1, recs, t) \<Rightarrow>
          (case evaluate_cases env sys1 (i + length pre) tcs of
             Inl e \<Rightarrow> Inl e
           | Inr (sys2, recs2, t2) \<Rightarrow> Inr (sys2, recs @ recs2, t + t2)))"
proof (induction pre arbitrary: sys i)
  case Nil
  then show ?case by (simp split: sum.splits prod.splits)
next
  case (Cons tc pre)
  then show ?case by (simp add: Let_def split: sum.splits prod.splits)
qed

lemma length_evaluate_cases:
  "evaluate_cases env sys i tcs = Inr (sys1, recs, t) \<Longrightarrow> length recs = length tcs"
proof (induction tcs arbitrary: sys i recs t)
  case Nil
  then show ?case by simp
next
  case (Cons tc tcs)
  then show ?case by (auto simp: Let_def split: sum.splits prod.splits)
qed

text \<open>
  Claim C10. With the empty list of test cases \<open>run_evaluation\<close> raises
  \<open>ZeroDivisionError\<close>, as soon as the system is loaded or its set-up succeeds: no
  record is made and the first mean of \<open>_calculate_aggregate_metrics\<close> divides by zero.
  Whatever the system and the environment, a report that is returned normally comes
  from a list of test cases that is not empty.
\<close>

theorem run_evaluation_empty:
  "(is_loaded sys \<or> (\<exists>sys1. rag_setup env sys = Inr sys1) \<longrightarrow>
      run_evaluation env sys (Some []) = Inl ZeroDivisionError) \<and>
   (\<forall>tcs out. run_evaluation env sys (Some tcs) = Inr out \<longrightarrow> tcs \<noteq> [])"
proof (intro conjI impI allI)
  assume "is_loaded sys \<or> (\<exists>sys1. rag_setup env sys = Inr sys1)"
  then have "\<exists>sys0. ensure_setup env sys = Inr sys0"
    by (cases "is_loaded sys") (auto simp: ensure_setup_def)
  then obtain sys0 where "ensure_setup env sys = Inr sys0" by blast
  then show "run_evaluation env sys (Some []) = Inl ZeroDivisionError"
    by (simp add: run_evaluation_def calculate_aggregate_metrics_empty)
next
  fix tcs out
  assume r: "run_evaluation env sys (Some tcs) = Inr out"
  show "tcs \<noteq> []"
  proof
    assume "tcs = []"
    with r show False
      by (simp add: run_evaluation_def calculate_aggregate_metrics_empty split: sum.splits)
  qed
qed

theorem run_evaluation_empty_witness:
  "run_evaluation demo_env failing_system (Some []) = Inl ZeroDivisionError \<and>
   run_evaluation demo_env
     \<lparr>retriever = \<lparr>documents = None, document_vectors = None, is_fitted = False\<rparr>,
      query_graph = (\<lambda>cypher. []), generator = None, is_loaded = False\<rparr> (Some []) =
     Inl ZeroDivisionError"
proof -
  have a: "is_loaded failing_system" by (simp add: failing_system_def)
  have b: "\<exists>sys1. rag_setup demo_env
     \<lparr>retriever = \<lparr>documents = None, document_vectors = None, is_fitted = False\<rparr>,
      query_graph = (\<lambda>cypher. []), generator = None, is_loaded = False\<rparr> = Inr sys1"
    by (simp add: rag_setup_def load_documents_def demo_env_def fit_def mat_lib_def
        load_model_def)
  from run_evaluation_empty [of failing_system demo_env] a
  have "run_evaluation demo_env failing_system (Some []) = Inl ZeroDivisionError" by simp
  moreover from run_evaluation_empty [of _ demo_env] b
  have "run_evaluation demo_env
     \<lparr>retriever = \<lparr>documents = None, document_vectors = None, is_fitted = False\<rparr>,
      query_graph = (\<lambda>cypher. []), generator = None, is_loaded = False\<rparr> (Some []) =
     Inl ZeroDivisionError" by blast
  ultimately show ?thesis by simp
qed

text \<open>
  Claim C2, as amended. \<open>run_evaluation\<close> does not catch what \<open>generate_response\<close>
  raises: when the cases before a case were evaluated and \<open>generate_response\<close> raises
  for that case, the run ends there with the same exception, whatever the remaining
  cases are. No record is made for the case and no report is returned.
\<close>

theorem run_evaluation_aborts:
  assumes "ensure_setup env sys = Inr sys0"
    and "evaluate_cases env sys0 0 pre = Inr (sys1, recs, t)"
    and "generate_response (tfidf_lib env) sys1 (tc_question tc) True 3 = Inl e"
  shows "run_evaluation env sys (Some (pre @ tc # rest)) = Inl e"
  using assms by (simp add: run_evaluation_def evaluate_cases_append)

text \<open>
  Claim C2 as stated fails: on a loaded system that has no documents the first of two
  cases makes \<open>generate_response\<close> raise \<open>ValueError\<close>, and the whole run raises it; there
  is no report and no record.
\<close>

theorem run_evaluation_aborts_counterexample:
  "generate_response (tfidf_lib demo_env) no_documents_system (tc_question mat_case) True 3 =
     Inl ValueError \<and>
   run_evaluation demo_env no_documents_system (Some [mat_case, zebra_case]) = Inl ValueError"
  by (simp add: run_evaluation_def ensure_setup_def generate_response_def retrieve_def fit_def
      no_documents_system_def demo_env_def)

lemma generate_response_stale_zebra:
  "generate_response mat_lib stale_system ''zebra'' True 3 =
     Inr (stale_system,
          \<lparr>response = apology, sources = [], context_used = Some False,
           kg_context = Some False\<rparr>)"
proof -
  have r: "retrieve mat_lib (retriever stale_system) ''zebra'' 3 =
      Inr (retriever stale_system, [])"
    by (simp add: retrieve_def stale_system_def mat_lib_def argsort_def py_slice_from_def
        upt_conv_Cons)
  have k: "get_kg_context (query_graph stale_system) ''zebra'' = []"
    by (simp add: get_kg_context_def kg_lookup_def stale_system_def)
  have s: "stale_system\<lparr>retriever := retriever stale_system\<rparr> = stale_system"
    by simp
  show ?thesis
    unfolding generate_response_def r k
    by (simp add: stale_system_def prepare_context_def generate_with_context_def)
qed

lemma generate_response_stale_mat:
  "generate_response mat_lib stale_system ''MAT standards'' True 3 = Inl IndexError"
proof -
  have r: "retrieve mat_lib (retriever stale_system) ''MAT standards'' 3 = Inl IndexError"
    by (simp add: retrieve_def stale_system_def mat_lib_def mat_docs_def argsort_def
        py_slice_from_def upt_conv_Cons)
  show ?thesis
    unfolding generate_response_def r by (simp add: stale_system_def)
qed

text \<open>
  On the system with the stale index the first case is evaluated and recorded, the
  second raises \<open>IndexError\<close>, and so does the run; the third case is never reached.
\<close>

theorem run_evaluation_aborts_witness:
  "run_evaluation demo_env stale_system (Some [zebra_case, mat_case, zebra_case]) =
     Inl IndexError"
proof -
  have a: "ensure_setup demo_env stale_system = Inr stale_system"
    by (simp add: ensure_setup_def stale_system_def)
  have "\<exists>recs t. evaluate_cases demo_env stale_system 0 [zebra_case] =
      Inr (stale_system, recs, t)"
    using generate_response_stale_zebra
    by (simp add: demo_env_def zebra_case_def Let_def)
  then obtain recs t where
    b: "evaluate_cases demo_env stale_system 0 [zebra_case] = Inr (stale_system, recs, t)"
    by blast
  have c: "generate_response (tfidf_lib demo_env) stale_system (tc_question mat_case) True 3 =
      Inl IndexError"
    using generate_response_stale_mat by (simp add: demo_env_def mat_case_def)
  from run_evaluation_aborts [OF a b c, of "[zebra_case]"] show ?thesis by simp
qed

end
